theory Spec2Isabelle
  imports Complex_Main "HOL-Library.Product_Lexorder" "HOL-Library.Multiset" "HOL-Library.Sublist"
begin

section \<open>Type compatibility rules (TimelineRow.jsx, areTypesCompatible)\<close>

text \<open>
  Element kinds are JavaScript strings in the source; they are modelled as HOL strings, so
  that kinds outside the declared set (such as \<open>''transition''\<close>) are inputs too.
\<close>

definition mixableTypes :: "string list" where
  "mixableTypes = [''audio'', ''video'', ''imageUrl'', ''image'']"

definition areTypesCompatible :: "string \<Rightarrow> string \<Rightarrow> bool" where
  "areTypesCompatible type1 type2 =
     (let isType1Subtitle = (type1 = ''text'');
          isType2Subtitle = (type2 = ''text'')
      in if isType1Subtitle \<or> isType2Subtitle then isType1Subtitle \<and> isType2Subtitle
         else if type1 = ''animation'' \<or> type2 = ''animation'' then True
         else type1 \<in> set mixableTypes \<and> type2 \<in> set mixableTypes)"

text \<open>The declared kind set of the data model, with the string each kind is written as.\<close>

datatype kind = Video | Image | ImageUrl | Audio | Text | Animation

fun kindName :: "kind \<Rightarrow> string" where
  "kindName Video = ''video''"
| "kindName Image = ''image''"
| "kindName ImageUrl = ''imageUrl''"
| "kindName Audio = ''audio''"
| "kindName Text = ''text''"
| "kindName Animation = ''animation''"

text \<open>
  The policy table, written from the words of the specification (section 4.1) and not from
  the code: text goes only with text; animation goes with anything except text; audio,
  video, imageUrl and image are mutually compatible.
\<close>

definition mediaKinds :: "kind set" where
  "mediaKinds = {Audio, Video, ImageUrl, Image}"

definition policyCompatible :: "kind \<Rightarrow> kind \<Rightarrow> bool" where
  "policyCompatible a b =
     ((a = Text \<and> b = Text)
      \<or> (a = Animation \<and> b \<noteq> Text)
      \<or> (b = Animation \<and> a \<noteq> Text)
      \<or> (a \<in> mediaKinds \<and> b \<in> mediaKinds))"


section \<open>Timeline elements and the ghost state\<close>

text \<open>
  JavaScript numbers are modelled as exact rationals (times in milliseconds, pointer
  coordinates in pixels): the model covers finite arithmetic without rounding. Where the
  source would produce a non-finite number (a division by a zero row width, an index that
  is not in the array) or would throw, the model returns an error value.
\<close>

record timeFrame =
  start :: rat
  endT :: rat

record properties =
  elementId :: string
  src :: "string option"
  hideInCanvas :: bool
  timelineOnly :: bool
  effectType :: "string option"
  backgroundColor :: "string option"
  color :: "string option"
  strokeColor :: "string option"
  words :: "nat option"
  wordObjects :: "nat option"

record element =
  ident :: string
  type :: string
  subType :: string
  row :: int
  timeFrame :: timeFrame
  properties :: properties

definition duration :: "element \<Rightarrow> rat" where
  "duration el = endT (timeFrame el) - start (timeFrame el)"

record ghostState =
  isDragging :: bool
  isMultiDragging :: bool
  isGalleryDragging :: bool
  isFileDragging :: bool
  isAnimationDrag :: bool
  initialClientX :: "rat option"
  initialElementStart :: rat
  initialElementStarts :: "rat list"
  selectedElements :: "element list"
  draggedElement :: "element option"
  hasGalleryGhostElement :: bool

record rect =
  left :: rat
  width :: rat

datatype js_error = TypeError | NotFinite

text \<open>The store methods the drop handler calls; their bodies are not part of the file.\<close>

datatype store_action =
    FinishMultiGhostDrag rat
  | FinishGhostDrag rat int
  | FinishAnimationGhostDrag rat int
  | FinishGalleryGhostDrag rat int
  | ShiftRowsDown int
  | AddImageLocal "string option" "string option" int rat

text \<open>\<open>overlays[0]?.type\<close>: undefined on an empty row.\<close>

definition rowTypeOf :: "element list \<Rightarrow> string option" where
  "rowTypeOf overlays = (case overlays of [] \<Rightarrow> None | first # _ \<Rightarrow> Some (type first))"

text \<open>JavaScript falsiness of an optional string: undefined and the empty string.\<close>

definition falsy :: "string option \<Rightarrow> bool" where
  "falsy v = (case v of None \<Rightarrow> True | Some str \<Rightarrow> str = [])"

text \<open>
  \<open>(deltaX / hoverBoundingRect.width) * store.maxTime\<close>. For a row of width 0 the source
  divides to an infinity or to NaN, clamps it and goes on to call the store; rationals
  have no such values, and the model stops there with the error value \<open>NotFinite\<close>. The
  results below that assume a handler result \<open>Inr\<close> therefore say nothing about a row of
  width 0, nor about the rounding of doubles.
\<close>

definition deltaTimeOf :: "rat \<Rightarrow> rat \<Rightarrow> rat \<Rightarrow> js_error + rat" where
  "deltaTimeOf deltaX w maxTime = (if w = 0 then Inl NotFinite else Inr ((deltaX / w) * maxTime))"

text \<open>\<open>array.findIndex(el => el.id === id)\<close>, with \<open>None\<close> for the result \<open>-1\<close>.\<close>

fun findIndexById :: "element list \<Rightarrow> string \<Rightarrow> nat option" where
  "findIndexById [] i = None"
| "findIndexById (el # els) i =
     (if ident el = i then Some 0 else map_option Suc (findIndexById els i))"

subsection \<open>The drop handler of a row, timeline-item branch (TimelineRow.jsx, lines 543-610)\<close>

text \<open>
  The branch is reached when no child target has handled the drop (\<open>monitor.didDrop()\<close>
  is false). The result is \<open>None\<close> when the branch is not taken (the handler goes on to
  the branches of the other payload kinds); otherwise the ghost state as the handler
  leaves it and the store methods it has called, or the error it stops with.
\<close>

definition dropTimelineItem ::
  "string \<Rightarrow> rect option \<Rightarrow> rat option \<Rightarrow> element list \<Rightarrow> int \<Rightarrow> rat \<Rightarrow> ghostState
     \<Rightarrow> (js_error + ghostState \<times> store_action list) option" where
  "dropTimelineItem itemType hoverBoundingRect clientOffset overlays rowIndex maxTime g =
     (if itemType = ''timeline-item'' \<and> (isDragging g \<or> isMultiDragging g) then
        Some (case (hoverBoundingRect, clientOffset) of
           (Some r, Some x) \<Rightarrow>
             if isMultiDragging g then
               (let deltaX = x - (case initialClientX g of None \<Rightarrow> 0 | Some x0 \<Rightarrow> x0) in
                case draggedElement g of
                  None \<Rightarrow> if selectedElements g = [] then Inl NotFinite else Inl TypeError
                | Some dragged \<Rightarrow>
                   (case deltaTimeOf deltaX (width r) maxTime of
                      Inl e \<Rightarrow> Inl e
                    | Inr deltaTime \<Rightarrow>
                       (case findIndexById (selectedElements g) (ident dragged) of
                          None \<Rightarrow> Inl NotFinite
                        | Some draggedIndex \<Rightarrow>
                           if draggedIndex < length (initialElementStarts g) then
                             (let finalPosition =
                                    max 0 (min maxTime (initialElementStarts g ! draggedIndex + deltaTime))
                              in Inr (g, [FinishMultiGhostDrag finalPosition]))
                           else Inl NotFinite)))
             else if isDragging g then
               (case (case rowTypeOf overlays of
                        None \<Rightarrow> Inr True
                      | Some rowType \<Rightarrow>
                          if rowType = [] then Inr True
                          else (case draggedElement g of
                                  None \<Rightarrow> Inl TypeError
                                | Some dragged \<Rightarrow> Inr (areTypesCompatible rowType (type dragged)))) of
                  Inl e \<Rightarrow> Inl e
                | Inr isCompatible \<Rightarrow>
                   if isCompatible then
                     (let x0 = (case initialClientX g of None \<Rightarrow> x | Some v \<Rightarrow> v);
                          g1 = g\<lparr>initialClientX := Some x0\<rparr>;
                          deltaX = x - x0 in
                      case deltaTimeOf deltaX (width r) maxTime of
                        Inl e \<Rightarrow> Inl e
                      | Inr deltaTime \<Rightarrow>
                         (let finalPosition = max 0 (min maxTime (initialElementStart g1 + deltaTime))
                          in if isAnimationDrag g1
                             then Inr (g1, [FinishAnimationGhostDrag finalPosition rowIndex])
                             else Inr (g1, [FinishGhostDrag finalPosition rowIndex])))
                   else Inr (g, []))
             else Inr (g, [])
         | _ \<Rightarrow> Inr (g, []))
      else None)"

subsection \<open>Array.prototype.sort with a comparator\<close>

text \<open>
  \<open>[...xs].sort(cmp)\<close> is stable; for a consistent comparator its result is the stable
  sorted arrangement, which insertion from the right computes: an element is put before
  the first element it does not compare greater than.
\<close>

fun insortBy :: "('a \<Rightarrow> 'a \<Rightarrow> rat) \<Rightarrow> 'a \<Rightarrow> 'a list \<Rightarrow> 'a list" where
  "insortBy cmp x [] = [x]"
| "insortBy cmp x (y # ys) = (if cmp x y \<le> 0 then x # y # ys else y # insortBy cmp x ys)"

definition sortBy :: "('a \<Rightarrow> 'a \<Rightarrow> rat) \<Rightarrow> 'a list \<Rightarrow> 'a list" where
  "sortBy cmp xs = foldr (insortBy cmp) xs []"

subsection \<open>The drop handler of a row, gallery-image branch (TimelineRow.jsx, lines 612-691)\<close>

record imageData =
  googleCloudUrl :: "string option"
  url :: "string option"
  minGoogleCloudUrl :: "string option"
  minUrl :: "string option"

text \<open>\<open>a || b\<close> on optional strings.\<close>

definition jsOr :: "string option \<Rightarrow> string option \<Rightarrow> string option" where
  "jsOr a b = (if falsy a then b else a)"

text \<open>\<open>(a, b) => a.timeFrame.start - b.timeFrame.start\<close>\<close>

definition byStart :: "element \<Rightarrow> element \<Rightarrow> rat" where
  "byStart a b = start (timeFrame a) - start (timeFrame b)"

text \<open>
  The gap scan \<open>for (let i = 0; i <= sortedElements.length; i++)\<close>. The source has three
  copies of the loop, with the least width 5000 for images and 10000 for videos and
  animation effects written into them; \<open>minGap\<close> stands for that literal. The result is the
  \<open>startTime\<close> found, or \<open>None\<close> when the loop ends with \<open>hasSpace\<close> false.
\<close>

definition currentStartAt :: "element list \<Rightarrow> nat \<Rightarrow> rat" where
  "currentStartAt sortedElements i =
     (if i = 0 then 0 else endT (timeFrame (sortedElements ! (i - 1))))"

definition nextStartAt :: "element list \<Rightarrow> rat \<Rightarrow> nat \<Rightarrow> rat" where
  "nextStartAt sortedElements maxTime i =
     (if i = length sortedElements then maxTime else start (timeFrame (sortedElements ! i)))"

function findGap :: "element list \<Rightarrow> rat \<Rightarrow> rat \<Rightarrow> nat \<Rightarrow> rat option" where
  "findGap sortedElements maxTime minGap i =
     (if i \<le> length sortedElements then
        (if nextStartAt sortedElements maxTime i - currentStartAt sortedElements i \<ge> minGap
         then Some (currentStartAt sortedElements i)
         else findGap sortedElements maxTime minGap (i + 1))
      else None)"
  by pat_completeness auto
termination
  by (relation "measure (\<lambda>(sortedElements, maxTime, minGap, i). Suc (length sortedElements) - i)") auto

declare findGap.simps [simp del]

definition dropGalleryImage ::
  "string \<Rightarrow> rect option \<Rightarrow> rat option \<Rightarrow> imageData \<Rightarrow> element list \<Rightarrow> int \<Rightarrow> rat \<Rightarrow> ghostState
     \<Rightarrow> (js_error + store_action list) option" where
  "dropGalleryImage itemType hoverBoundingRect clientOffset img editorElements rowIndex maxTime g =
     (if itemType = ''gallery-image'' \<or> itemType = ''scene-image'' then
        Some (
          if isGalleryDragging g \<and> hasGalleryGhostElement g then
            (case (hoverBoundingRect, clientOffset) of
               (Some r, Some x) \<Rightarrow>
                 (case deltaTimeOf (x - left r) (width r) maxTime of
                    Inl e \<Rightarrow> Inl e
                  | Inr finalPosition \<Rightarrow> Inr [FinishGalleryGhostDrag finalPosition rowIndex])
             | _ \<Rightarrow> Inr [])
          else
            (let rowElements = filter (\<lambda>el. row el = rowIndex) editorElements;
                 found = (if length rowElements > 0
                          then findGap (sortBy byStart rowElements) maxTime 5000 0
                          else Some 0)
             in case found of
                  Some startTime \<Rightarrow>
                    Inr [AddImageLocal (jsOr (googleCloudUrl img) (url img))
                           (jsOr (minGoogleCloudUrl img) (minUrl img)) rowIndex startTime]
                | None \<Rightarrow>
                    Inr [ShiftRowsDown (rowIndex + 1),
                         AddImageLocal (jsOr (googleCloudUrl img) (url img))
                           (jsOr (minGoogleCloudUrl img) (minUrl img)) (rowIndex + 1) 0]))
      else None)"

subsection \<open>Default durations of insert ghosts (TimelineRow.jsx, handleHover and handleDragEnter)\<close>

text \<open>
  The payload of a gallery drag: its kind tag and the \<open>duration\<close> of the asset it carries
  (\<open>draggedItem.video?.duration\<close> and the like), \<open>None\<close> when the asset or its duration is
  undefined.
\<close>

record draggedItem =
  itemKind :: string
  assetDuration :: "rat option"

text \<open>\<open>d || fallback\<close> on an optional number: undefined and 0 are falsy.\<close>

definition durationOr :: "rat option \<Rightarrow> rat \<Rightarrow> rat" where
  "durationOr d fallback = (case d of None \<Rightarrow> fallback | Some v \<Rightarrow> if v = 0 then fallback else v)"

text \<open>
  The element type and default duration that handleHover passes to
  \<open>store.startGalleryGhostDrag\<close> when no gallery ghost is active yet; \<open>None\<close> for a
  payload kind that starts no gallery ghost.
\<close>

definition startGalleryGhostDragArgs :: "draggedItem \<Rightarrow> (string \<times> rat) option" where
  "startGalleryGhostDragArgs item =
     (if itemKind item = ''gallery-image'' \<or> itemKind item = ''scene-image''
        then Some (''imageUrl'', 5000)
      else if itemKind item = ''gallery-video'' \<or> itemKind item = ''scene-video''
        then Some (''video'', durationOr (assetDuration item) 10000)
      else if itemKind item = ''animation-effect''
        then Some (''video'', durationOr (assetDuration item) 10000)
      else if itemKind item = ''animation-drop''
        then Some (''animation'', durationOr (assetDuration item) 1000)
      else if itemKind item = ''gl-transition-drop''
        then Some (''transition'', durationOr (assetDuration item) 1000)
      else None)"

text \<open>
  The element type and default duration that handleDragEnter passes to
  \<open>store.startFileGhostDrag\<close> for a dragged file of MIME type \<open>fileType\<close>.
\<close>

definition startFileGhostDragArgs :: "string \<Rightarrow> string \<times> rat" where
  "startFileGhostDragArgs fileType =
     (if prefix ''audio/'' fileType then (''audio'', 30000)
      else if prefix ''video/'' fileType then (''video'', 10000)
      else (''imageUrl'', 5000))"

text \<open>
  The condition under which handleDragEnter starts a file ghost at all: the file is an
  audio, image or video file and the row is empty (\<open>!overlays.length\<close>) or compatible
  with its element type.
\<close>

definition rowAccepts :: "element list \<Rightarrow> string \<Rightarrow> bool" where
  "rowAccepts overlays elementType =
     (case overlays of [] \<Rightarrow> True | first # _ \<Rightarrow> areTypesCompatible (type first) elementType)"

definition fileDragAccepted :: "string \<Rightarrow> element list \<Rightarrow> bool" where
  "fileDragAccepted fileType overlays =
     ((prefix ''audio/'' fileType \<and> rowAccepts overlays ''audio'')
      \<or> (prefix ''image/'' fileType \<and> rowAccepts overlays ''imageUrl'')
      \<or> (prefix ''video/'' fileType \<and> rowAccepts overlays ''video''))"

definition gapWidth :: "element list \<Rightarrow> rat \<Rightarrow> nat \<Rightarrow> rat" where
  "gapWidth sortedElements maxTime i =
     nextStartAt sortedElements maxTime i - currentStartAt sortedElements i"

subsection \<open>The commit of a move\<close>

text \<open>
  Modelled from the spec: the store methods \<open>finishGhostDrag\<close> and
  \<open>finishAnimationGhostDrag\<close>, which commit a single move, are called by the drop handler
  but are not among the source files. Section 4.3 gives the resolver the contract
  \<open>resolve(candidateStart, targetRow, element) \<rightarrow> {finalStart, finalRow, accepted}\<close> with
  rule 1, "Clamp candidateStart to [0, maxTime - duration]". The commit gives the moved
  element the resolved start and the target row and keeps its duration. The displacement
  of neighbours (rule 3) does not touch the moved element and is left out.
\<close>

definition resolveFinalStart :: "rat \<Rightarrow> rat \<Rightarrow> rat \<Rightarrow> rat" where
  "resolveFinalStart candidateStart dur maxTime = max 0 (min (maxTime - dur) candidateStart)"

text \<open>
  Modelled from the spec: \<open>store.finishGhostDrag(finalPosition, rowIndex)\<close>, not among the
  source files; the element that the ghost state names as dragged is moved to the start
  resolved by \<open>resolveFinalStart\<close>.
\<close>

definition finishGhostDrag :: "rat \<Rightarrow> int \<Rightarrow> rat \<Rightarrow> ghostState \<Rightarrow> element list \<Rightarrow> element list" where
  "finishGhostDrag finalPosition rowIndex maxTime g editorElements =
     (case draggedElement g of
        None \<Rightarrow> editorElements
      | Some dragged \<Rightarrow>
          map (\<lambda>el. if ident el = ident dragged
                    then (let finalStart = resolveFinalStart finalPosition (duration el) maxTime
                          in el\<lparr>row := rowIndex,
                                timeFrame := \<lparr>start = finalStart, endT = finalStart + duration el\<rparr>\<rparr>)
                    else el)
            editorElements)"

text \<open>
  Modelled from the spec: \<open>store.finishMultiGhostDrag(finalPosition)\<close>, not among the source
  files. Section 4.2: the anchor of a multi-move is "an array of each selected element's
  original start, indexed identically to the selection order; the same pointer delta is
  applied uniformly". The handler passes the final position of the dragged element, so
  the delta is that position minus the dragged element's anchor; every selected element
  is put at its anchor plus the delta and keeps its duration.
\<close>

definition finishMultiGhostDrag :: "rat \<Rightarrow> ghostState \<Rightarrow> element list \<Rightarrow> element list" where
  "finishMultiGhostDrag finalPosition g editorElements =
     (case draggedElement g of
        None \<Rightarrow> editorElements
      | Some dragged \<Rightarrow>
         (case findIndexById (selectedElements g) (ident dragged) of
            None \<Rightarrow> editorElements
          | Some draggedIndex \<Rightarrow>
             (let delta = finalPosition - initialElementStarts g ! draggedIndex in
              map (\<lambda>el. case findIndexById (selectedElements g) (ident el) of
                          None \<Rightarrow> el
                        | Some i \<Rightarrow>
                            el\<lparr>timeFrame :=
                                 \<lparr>start = initialElementStarts g ! i + delta,
                                  endT = initialElementStarts g ! i + delta + duration el\<rparr>\<rparr>)
                editorElements)))"

section \<open>Scene synchronization (refreshElements.js, refreshElementsUtil)\<close>

text \<open>
  The store is a record of the fields the pass reads and writes. Element objects are
  identified by their id: the \<open>fabricObject\<close> field that the pass and the image callbacks
  assign on an element object is the map \<open>fabricObject\<close> from element ids to the name of
  the realized node (every node is created with \<open>name: element.id\<close>). An element object
  that another component replaces by a new object with the same id has no node in the
  source and keeps the old one in this map; such replacements are outside the model.
  The retained scene
  and the collaborators are observed through the list \<open>calls\<close> of the calls made on them, in
  order. \<open>pendingLoads\<close> are the \<open>fabric.Image.fromURL\<close> requests whose callback has not
  run yet, each with the element and index its closure captured; \<open>suspended\<close> holds, for
  every pass waiting at \<open>await Promise.all(imagePromises)\<close>, the loads it still waits for.
\<close>

datatype dom_tag = VideoTag | ImageTag | AudioTag | OtherTag

datatype call =
    CanvasOff string
  | CanvasClear
  | CanvasOn string
  | CanvasAdd string
  | CanvasMoveTo string nat
  | BringToFront string
  | SetActiveObject string
  | RequestRenderAll
  | StoreMethod string string
  | ImageFromURL string
  | AppendAudio string
  | ConsoleError

record load =
  loadId :: nat
  loadElement :: string
  loadIndex :: nat

record store =
  hasCanvas :: bool
  isRefreshingElements :: bool
  editorElements :: "element list"
  fabricObject :: "string \<rightharpoonup> string"
  document :: "string \<rightharpoonup> dom_tag"
  selectedElement :: "string option"
  calls :: "call list"
  pendingLoads :: "load list"
  suspended :: "nat list list"
  nextLoad :: nat

text \<open>A statement completes normally or throws; either way the state reached is kept.\<close>

datatype 'a completion = Normal 'a | Throw 'a

definition andThen :: "'a completion \<Rightarrow> ('a \<Rightarrow> 'a completion) \<Rightarrow> 'a completion" where
  "andThen c f = (case c of Normal a \<Rightarrow> f a | Throw a \<Rightarrow> Throw a)"

definition logCall :: "call \<Rightarrow> store \<Rightarrow> store" where
  "logCall c s = s\<lparr>calls := calls s @ [c]\<rparr>"

text \<open>
  A call of a store method whose body is not in the file (\<open>updateCanvasFrameFill\<close>,
  \<open>createSubtitleBackground\<close>, \<open>initializeWordAnimations\<close>, \<open>updateWordObjects\<close>,
  \<open>refreshAnimations\<close>, \<open>updateTimeTo\<close>, \<open>updateWordZIndex\<close>): the call is recorded, and
  the parameter \<open>throws\<close> says which of these methods throw.
\<close>

definition storeMethod :: "(string \<Rightarrow> bool) \<Rightarrow> string \<Rightarrow> string \<Rightarrow> store \<Rightarrow> store completion" where
  "storeMethod throws name arg s =
     (if throws name then Throw (logCall (StoreMethod name arg) s)
      else Normal (logCall (StoreMethod name arg) s))"

subsection \<open>Paint order (lines 38-43)\<close>

definition paintOrder :: "element \<Rightarrow> element \<Rightarrow> rat" where
  "paintOrder a b =
     (if type a = ''text'' \<and> type b \<noteq> ''text'' then 1
      else if type b = ''text'' \<and> type a \<noteq> ''text'' then - 1
      else of_int (row b - row a))"

definition sortedElements :: "element list \<Rightarrow> element list" where
  "sortedElements els = sortBy paintOrder els"

subsection \<open>The per-element loop (lines 63-464)\<close>

text \<open>
  The statements after the \<open>switch\<close> (lines 457-463), reached by \<open>break\<close> but not by
  \<open>continue\<close>: an element with a realized node gets its selection handler and is moved to
  its paint index.
\<close>

definition afterSwitch :: "nat \<Rightarrow> element \<Rightarrow> store \<Rightarrow> store" where
  "afterSwitch index element s =
     (case fabricObject s (ident element) of
        None \<Rightarrow> s
      | Some obj \<Rightarrow> logCall (CanvasMoveTo obj index) s)"

definition realize :: "element \<Rightarrow> store \<Rightarrow> store" where
  "realize element s = s\<lparr>fabricObject := (fabricObject s)(ident element \<mapsto> ident element)\<rparr>"

fun decimal :: "nat \<Rightarrow> string" where
  "decimal n =
     (if n < 10 then [''0123456789'' ! n]
      else decimal (n div 10) @ [''0123456789'' ! (n mod 10)])"

declare decimal.simps [simp del]

text \<open>Lines 181-185, with \<open>now\<close> for \<open>Date.now()\<close>.\<close>

definition cacheBustUrl :: "string \<Rightarrow> nat \<Rightarrow> string" where
  "cacheBustUrl source now =
     source @ (if CHR ''?'' \<in> set source then ''&'' else ''?'') @ ''_cb='' @ decimal now"

text \<open>
  \<open>case 'video'\<close>. Reading \<open>element.properties.effect.type\<close> throws a TypeError when the
  element has no \<open>effect\<close>; it is read while the options of the node are built, before
  anything is assigned.
\<close>

definition materializeVideo ::
  "nat \<Rightarrow> element \<Rightarrow> store \<times> nat list \<Rightarrow> (store \<times> nat list) completion" where
  "materializeVideo index element acc =
     (case document (fst acc) (elementId (properties element)) of
        None \<Rightarrow> Normal acc
      | Some tag \<Rightarrow>
          if tag \<noteq> VideoTag then Normal acc
          else (case effectType (properties element) of
                  None \<Rightarrow> Throw acc
                | Some customFilter \<Rightarrow>
                    Normal (afterSwitch index element
                              (logCall (CanvasAdd (ident element)) (realize element (fst acc))),
                            snd acc)))"

text \<open>\<open>case 'image': case 'imageUrl'\<close>.\<close>

definition materializeImage ::
  "nat \<Rightarrow> nat \<Rightarrow> element \<Rightarrow> store \<times> nat list \<Rightarrow> (store \<times> nat list) completion" where
  "materializeImage now index element acc =
     (let s = fst acc; imagePromises = snd acc in
      if hideInCanvas (properties element) then Normal (afterSwitch index element s, imagePromises)
      else
        (case fabricObject s (ident element) of
           Some obj \<Rightarrow> Normal (afterSwitch index element (logCall (CanvasAdd obj) s), imagePromises)
         | None \<Rightarrow>
             if type element = ''image'' then
               (case document s (elementId (properties element)) of
                  None \<Rightarrow> Normal acc
                | Some tag \<Rightarrow>
                    if tag \<noteq> ImageTag then Normal acc
                    else (case effectType (properties element) of
                            None \<Rightarrow> Throw acc
                          | Some customFilter \<Rightarrow>
                              Normal (afterSwitch index element
                                        (logCall (CanvasAdd (ident element)) (realize element s)),
                                      imagePromises)))
             else
               (case src (properties element) of
                  None \<Rightarrow> Normal (afterSwitch index element s, imagePromises)
                | Some source \<Rightarrow>
                    if type element = ''imageUrl'' \<and> source \<noteq> [] then
                      Normal (afterSwitch index element
                                (s\<lparr>calls := calls s @ [ImageFromURL (cacheBustUrl source now)],
                                   pendingLoads := pendingLoads s @
                                     [\<lparr>loadId = nextLoad s, loadElement = ident element,
                                       loadIndex = index\<rparr>],
                                   nextLoad := Suc (nextLoad s)\<rparr>),
                              imagePromises @ [nextLoad s])
                    else Normal (afterSwitch index element s, imagePromises))))"

text \<open>
  \<open>case 'text'\<close>. \<open>backgroundColor.startsWith\<close>, \<open>color.startsWith\<close> and
  \<open>strokeColor.startsWith\<close> throw a TypeError on an undefined colour, before the node is
  built. The handlers registered on the node run on later user events and are not part
  of the pass.
\<close>

definition materializeText ::
  "(string \<Rightarrow> bool) \<Rightarrow> nat \<Rightarrow> element \<Rightarrow> store \<times> nat list \<Rightarrow> (store \<times> nat list) completion" where
  "materializeText throws index element acc =
     (let s = fst acc; imagePromises = snd acc; p = properties element in
      if timelineOnly p then Normal (afterSwitch index element s, imagePromises)
      else if backgroundColor p = None \<or> color p = None \<or> strokeColor p = None then Throw acc
      else
        (let s1 = logCall (BringToFront (ident element))
                    (logCall (CanvasMoveTo (ident element) index)
                       (logCall (CanvasAdd (ident element)) (realize element s)));
             c1 = (if subType element = ''subtitles''
                   then storeMethod throws ''createSubtitleBackground'' (ident element) s1
                   else Normal s1);
             c2 = andThen c1 (\<lambda>s2.
                   case words p of
                     None \<Rightarrow> Normal s2
                   | Some n \<Rightarrow>
                       if n > 0 then
                         (if wordObjects p = None \<or> wordObjects p = Some 0
                          then storeMethod throws ''initializeWordAnimations'' (ident element) s2
                          else storeMethod throws ''updateWordObjects'' (ident element) s2)
                       else Normal s2)
         in case c2 of
              Normal s3 \<Rightarrow> Normal (afterSwitch index element s3, imagePromises)
            | Throw s3 \<Rightarrow> Throw (s3, imagePromises)))"

text \<open>\<open>case 'audio'\<close>.\<close>

definition ensureAudio ::
  "nat \<Rightarrow> element \<Rightarrow> store \<times> nat list \<Rightarrow> (store \<times> nat list) completion" where
  "ensureAudio index element acc =
     (let s = fst acc; elId = elementId (properties element);
          s1 = (case document s elId of
                  None \<Rightarrow> logCall (AppendAudio elId) (s\<lparr>document := (document s)(elId \<mapsto> AudioTag)\<rparr>)
                | Some tag \<Rightarrow> s)
      in Normal (afterSwitch index element s1, snd acc))"

definition processElement ::
  "(string \<Rightarrow> bool) \<Rightarrow> nat \<Rightarrow> nat \<Rightarrow> element \<Rightarrow> store \<times> nat list \<Rightarrow> (store \<times> nat list) completion" where
  "processElement throws now index element acc =
     (if type element = ''video'' then materializeVideo index element acc
      else if type element = ''image'' \<or> type element = ''imageUrl''
        then materializeImage now index element acc
      else if type element = ''text'' then materializeText throws index element acc
      else if type element = ''audio'' then ensureAudio index element acc
      else Normal acc)"

text \<open>
  \<open>for (let index = 0; index < sortedElements.length; index++)\<close>: there is no handler
  inside the loop, so an exception leaves it.
\<close>

fun processElements ::
  "(string \<Rightarrow> bool) \<Rightarrow> nat \<Rightarrow> nat \<Rightarrow> element list \<Rightarrow> store \<times> nat list
     \<Rightarrow> (store \<times> nat list) completion" where
  "processElements throws now index [] acc = Normal acc"
| "processElements throws now index (element # rest) acc =
     (case processElement throws now index element acc of
        Normal acc' \<Rightarrow> processElements throws now (index + 1) rest acc'
      | Throw acc' \<Rightarrow> Throw acc')"

subsection \<open>The pass\<close>

text \<open>Lines 12-60: the flag is set, the canvas is cleared, the global handler registered.\<close>

definition beginPass :: "store \<Rightarrow> store" where
  "beginPass s =
     logCall (CanvasOn ''object:modified'')
       (logCall CanvasClear
          (logCall (CanvasOff ''object:added'')
             (logCall (CanvasOff ''object:modified'') (s\<lparr>isRefreshingElements := True\<rparr>))))"

text \<open>The body of the \<open>try\<close> up to the \<open>await\<close> (lines 14-464).\<close>

definition synchronousPart ::
  "(string \<Rightarrow> bool) \<Rightarrow> nat \<Rightarrow> store \<Rightarrow> (store \<times> nat list) completion" where
  "synchronousPart throws now s =
     (case storeMethod throws ''updateCanvasFrameFill'' [] (beginPass s) of
        Throw s1 \<Rightarrow> Throw (s1, [])
      | Normal s1 \<Rightarrow> processElements throws now 0 (sortedElements (editorElements s)) (s1, []))"

text \<open>\<open>store.editorElements.forEach\<close> of lines 482-486.\<close>

fun updateWordZIndexes :: "(string \<Rightarrow> bool) \<Rightarrow> element list \<Rightarrow> store \<Rightarrow> store completion" where
  "updateWordZIndexes throws [] s = Normal s"
| "updateWordZIndexes throws (element # rest) s =
     (if type element = ''text'' \<and> wordObjects (properties element) \<noteq> None
      then andThen (storeMethod throws ''updateWordZIndex'' (ident element) s)
             (updateWordZIndexes throws rest)
      else updateWordZIndexes throws rest s)"

text \<open>The body of the \<open>try\<close> after the \<open>await\<close> (lines 471-489).\<close>

definition finalUpdates :: "(string \<Rightarrow> bool) \<Rightarrow> store \<Rightarrow> store completion" where
  "finalUpdates throws s =
     (let s1 = (case selectedElement s of
                  None \<Rightarrow> s
                | Some selected \<Rightarrow>
                    (case fabricObject s selected of
                       None \<Rightarrow> s
                     | Some obj \<Rightarrow> logCall (SetActiveObject obj) s))
      in andThen (storeMethod throws ''refreshAnimations'' [] s1) (\<lambda>s2.
         andThen (storeMethod throws ''updateTimeTo'' [] s2) (\<lambda>s3.
         andThen (updateWordZIndexes throws (editorElements s3) s3) (\<lambda>s4.
         Normal (logCall RequestRenderAll s4)))))"

text \<open>\<open>catch (error) { console.error(...) } finally { store.isRefreshingElements = false }\<close>\<close>

definition catchFinally :: "store completion \<Rightarrow> store" where
  "catchFinally c =
     (case c of
        Normal s \<Rightarrow> s\<lparr>isRefreshingElements := False\<rparr>
      | Throw s \<Rightarrow> (logCall ConsoleError s)\<lparr>isRefreshingElements := False\<rparr>)"

text \<open>
  An invocation, up to the point where it returns or is suspended at the \<open>await\<close>. A pass
  that issued no image load runs to its end in the same step.
\<close>

definition refreshElementsUtil :: "(string \<Rightarrow> bool) \<Rightarrow> nat \<Rightarrow> store \<Rightarrow> store" where
  "refreshElementsUtil throws now s =
     (if \<not> hasCanvas s then s
      else if isRefreshingElements s then s
      else
        (case synchronousPart throws now s of
           Throw (s1, imagePromises) \<Rightarrow> catchFinally (Throw s1)
         | Normal (s1, imagePromises) \<Rightarrow>
             if length imagePromises > 0
             then s1\<lparr>suspended := suspended s1 @ [imagePromises]\<rparr>
             else catchFinally (finalUpdates throws s1)))"

text \<open>
  The completion callback of the image load \<open>l\<close> (lines 188-216) and what its \<open>resolve()\<close>
  sets off: the load leaves every waiting list, and a pass whose list has become empty
  runs the rest of its body.
\<close>

definition imageLoaded :: "(string \<Rightarrow> bool) \<Rightarrow> nat \<Rightarrow> store \<Rightarrow> store" where
  "imageLoaded throws l s =
     (case find (\<lambda>p. loadId p = l) (pendingLoads s) of
        None \<Rightarrow> s
      | Some ld \<Rightarrow>
          (let s1 = s\<lparr>fabricObject := (fabricObject s)(loadElement ld \<mapsto> loadElement ld),
                      pendingLoads := filter (\<lambda>p. loadId p \<noteq> l) (pendingLoads s)\<rparr>;
               s2 = logCall (CanvasMoveTo (loadElement ld) (loadIndex ld))
                      (logCall (CanvasAdd (loadElement ld)) s1);
               waiting = map (filter (\<lambda>k. k \<noteq> l)) (suspended s2);
               s3 = s2\<lparr>suspended := filter (\<lambda>w. w \<noteq> []) waiting\<rparr>
           in ((\<lambda>s'. catchFinally (finalUpdates throws s')) ^^ length (filter (\<lambda>w. w = []) waiting)) s3))"

text \<open>
  The events of the single-threaded loop that concern the pass: a trigger of the
  synchronization, the completion of an image load, and an edit of the element list by
  another component.
\<close>

datatype event = Refresh nat | ImageLoaded nat | SetEditorElements "element list"

fun step :: "(string \<Rightarrow> bool) \<Rightarrow> event \<Rightarrow> store \<Rightarrow> store" where
  "step throws (Refresh now) s = refreshElementsUtil throws now s"
| "step throws (ImageLoaded l) s = imageLoaded throws l s"
| "step throws (SetEditorElements els) s = s\<lparr>editorElements := els\<rparr>"

definition run :: "(string \<Rightarrow> bool) \<Rightarrow> event list \<Rightarrow> store \<Rightarrow> store" where
  "run throws events s = foldl (\<lambda>s' e. step throws e s') s events"

definition initial :: "store \<Rightarrow> bool" where
  "initial s = (\<not> isRefreshingElements s \<and> suspended s = [] \<and> pendingLoads s = [])"

definition passesInFlight :: "store \<Rightarrow> nat" where
  "passesInFlight s = length (suspended s)"

subsection \<open>Concrete elements for the worked examples\<close>

definition exampleProperties :: "string \<Rightarrow> properties" where
  "exampleProperties i =
     \<lparr>elementId = i, src = None, hideInCanvas = False, timelineOnly = False,
      effectType = Some ''none'', backgroundColor = Some ''#000000'', color = Some ''#ffffff'',
      strokeColor = Some ''#000000'', words = None, wordObjects = None\<rparr>"

definition exampleElement :: "string \<Rightarrow> string \<Rightarrow> int \<Rightarrow> rat \<Rightarrow> rat \<Rightarrow> element" where
  "exampleElement i t r s e =
     \<lparr>ident = i, type = t, subType = [], row = r, timeFrame = \<lparr>start = s, endT = e\<rparr>,
      properties = exampleProperties i\<rparr>"

definition noGhost :: ghostState where
  "noGhost =
     \<lparr>isDragging = False, isMultiDragging = False, isGalleryDragging = False,
      isFileDragging = False, isAnimationDrag = False, initialClientX = None,
      initialElementStart = 0, initialElementStarts = [], selectedElements = [],
      draggedElement = None, hasGalleryGhostElement = False\<rparr>"

definition exampleImage :: imageData where
  "exampleImage =
     \<lparr>googleCloudUrl = None, url = Some ''https://example.org/a.png'',
      minGoogleCloudUrl = None, minUrl = Some ''https://example.org/a_min.png''\<rparr>"

definition exampleRect :: rect where
  "exampleRect = \<lparr>left = 0, width = 1000\<rparr>"

text \<open>A single drag of a video at [5000, 7000], started with the pointer at x = 100.\<close>

definition exampleSingleDrag :: ghostState where
  "exampleSingleDrag =
     noGhost\<lparr>isDragging := True, initialClientX := Some 100, initialElementStart := 5000,
             draggedElement := Some (exampleElement ''v'' ''video'' 0 5000 7000)\<rparr>"

text \<open>A drag of the selection a = [0, 2000], b = [3000, 4000] by its element a.\<close>

definition exampleMultiDrag :: ghostState where
  "exampleMultiDrag =
     noGhost\<lparr>isMultiDragging := True, initialClientX := Some 100,
             initialElementStarts := [0, 3000],
             selectedElements := [exampleElement ''a'' ''video'' 0 0 2000,
                                  exampleElement ''b'' ''image'' 1 3000 4000],
             draggedElement := Some (exampleElement ''a'' ''video'' 0 0 2000)\<rparr>"


text \<open>
  A store with a canvas, no pass in flight, and a document that holds the video element
  \<open>''v''\<close> and the image element \<open>''i''\<close>.
\<close>

definition exampleStore :: "element list \<Rightarrow> store" where
  "exampleStore els =
     \<lparr>hasCanvas = True, isRefreshingElements = False, editorElements = els,
      fabricObject = Map.empty, document = [''v'' \<mapsto> VideoTag, ''i'' \<mapsto> ImageTag],
      selectedElement = None, calls = [], pendingLoads = [], suspended = [], nextLoad = 0\<rparr>"

text \<open>A video element without an \<open>effect\<close> property, an image, and a remote image.\<close>

definition videoWithoutEffect :: element where
  "videoWithoutEffect =
     (exampleElement ''v'' ''video'' 0 0 1000)
       \<lparr>properties := (exampleProperties ''v'')\<lparr>effectType := None\<rparr>\<rparr>"

definition localImage :: element where
  "localImage = exampleElement ''i'' ''image'' 0 0 1000"

definition remoteImage :: element where
  "remoteImage =
     (exampleElement ''u'' ''imageUrl'' 0 0 5000)
       \<lparr>properties := (exampleProperties ''u'')\<lparr>src := Some ''https://example.org/u.png''\<rparr>\<rparr>"

definition neverThrows :: "string \<Rightarrow> bool" where
  "neverThrows name = False"

subsection \<open>Auxiliary notions of the proofs\<close>

text \<open>
  A key under which the comparator \<open>paintOrder\<close> is the usual order: text after everything
  else, then descending rows.
\<close>

definition paintKey :: "element \<Rightarrow> nat \<times> int" where
  "paintKey e = (if type e = ''text'' then 1 else 0, - row e)"

text \<open>The state a statement has reached, however it completed.\<close>

fun reached :: "'a completion \<Rightarrow> 'a" where
  "reached (Normal a) = a"
| "reached (Throw a) = a"

text \<open>The fields that say whether a pass is in flight.\<close>

definition control :: "store \<Rightarrow> bool \<times> bool \<times> nat list list" where
  "control s = (hasCanvas s, isRefreshingElements s, suspended s)"

text \<open>
  Between two events at most one pass is waiting, the flag is set exactly while one is,
  and a waiting pass waits for at least one load.
\<close>

definition passInvariant :: "store \<Rightarrow> bool" where
  "passInvariant s =
     (length (suspended s) \<le> 1
      \<and> isRefreshingElements s = (suspended s \<noteq> [])
      \<and> [] \<notin> set (suspended s))"

text \<open>A step that only appends to the log of calls and realizes no node.\<close>

definition onlyLogs :: "store \<Rightarrow> store \<Rightarrow> bool" where
  "onlyLogs s s' = (prefix (calls s) (calls s') \<and> fabricObject s' = fabricObject s)"

text \<open>A remote image without a source: a placeholder.\<close>

definition placeholderImage :: element where
  "placeholderImage = exampleElement ''p'' ''imageUrl'' 0 0 5000"

section \<open>Verified properties\<close>

lemma areTypesCompatible_commute:
  "areTypesCompatible type1 type2 = areTypesCompatible type2 type1"
  by (auto simp: areTypesCompatible_def Let_def)

text \<open>
  Claim C1. For every pair of declared kinds the compatibility function is symmetric and
  agrees with the policy table: text only with text, animation with everything but text,
  the four media kinds with each other; text/text is accepted, text/video is rejected and
  animation/audio is accepted.
\<close>

theorem compatible_symmetric_and_matches_policy:
  "areTypesCompatible (kindName a) (kindName b) = areTypesCompatible (kindName b) (kindName a)
   \<and> areTypesCompatible (kindName a) (kindName b) = policyCompatible a b
   \<and> areTypesCompatible ''text'' ''text''
   \<and> \<not> areTypesCompatible ''text'' ''video''
   \<and> areTypesCompatible ''animation'' ''audio''"
proof -
  have table: "areTypesCompatible (kindName a) (kindName b) = policyCompatible a b"
    by (cases a; cases b)
       (simp_all add: areTypesCompatible_def policyCompatible_def mediaKinds_def
          mixableTypes_def)
  have examples: "areTypesCompatible ''text'' ''text''"
    "\<not> areTypesCompatible ''text'' ''video''"
    "areTypesCompatible ''animation'' ''audio''"
    by (simp_all add: areTypesCompatible_def)
  show ?thesis
    using table examples areTypesCompatible_commute [of "kindName a" "kindName b"] by simp
qed

theorem compatible_symmetric_and_matches_policy_witness:
  "areTypesCompatible (kindName Animation) (kindName Audio)
     = areTypesCompatible (kindName Audio) (kindName Animation)
   \<and> areTypesCompatible (kindName Animation) (kindName Audio) = policyCompatible Animation Audio
   \<and> policyCompatible Animation Audio
   \<and> \<not> policyCompatible Text Video"
  using compatible_symmetric_and_matches_policy [of Animation Audio]
    compatible_symmetric_and_matches_policy [of Text Video]
  by (simp add: policyCompatible_def mediaKinds_def areTypesCompatible_def)

text \<open>
  Claim C9, as amended. The default duration of an insert ghost is 5000 ms for a gallery or
  scene image and for an image file, 10000 ms for a video file, and 30000 ms for an audio
  file; a gallery or scene video and an animation effect take the asset's own duration
  when it is defined and not zero, and 10000 ms otherwise. File drags never use a duration
  of the asset.
\<close>

theorem insert_ghost_default_durations:
  "(itemKind item \<in> {''gallery-image'', ''scene-image''}
      \<longrightarrow> startGalleryGhostDragArgs item = Some (''imageUrl'', 5000))
   \<and> (itemKind item \<in> {''gallery-video'', ''scene-video'', ''animation-effect''}
      \<longrightarrow> (\<forall>d. assetDuration item = Some d \<and> d \<noteq> 0
              \<longrightarrow> startGalleryGhostDragArgs item = Some (''video'', d))
        \<and> (assetDuration item = None \<or> assetDuration item = Some 0
              \<longrightarrow> startGalleryGhostDragArgs item = Some (''video'', 10000)))
   \<and> (prefix ''image/'' fileType \<longrightarrow> startFileGhostDragArgs fileType = (''imageUrl'', 5000))
   \<and> (prefix ''video/'' fileType \<longrightarrow> startFileGhostDragArgs fileType = (''video'', 10000))
   \<and> (prefix ''audio/'' fileType \<longrightarrow> startFileGhostDragArgs fileType = (''audio'', 30000))"
proof -
  have img: "itemKind item \<in> {''gallery-image'', ''scene-image''}
      \<longrightarrow> startGalleryGhostDragArgs item = Some (''imageUrl'', 5000)"
    by (auto simp: startGalleryGhostDragArgs_def)
  have vid: "itemKind item \<in> {''gallery-video'', ''scene-video'', ''animation-effect''}
      \<longrightarrow> (\<forall>d. assetDuration item = Some d \<and> d \<noteq> 0
              \<longrightarrow> startGalleryGhostDragArgs item = Some (''video'', d))
        \<and> (assetDuration item = None \<or> assetDuration item = Some 0
              \<longrightarrow> startGalleryGhostDragArgs item = Some (''video'', 10000))"
    by (auto simp: startGalleryGhostDragArgs_def durationOr_def)
  have files: "prefix ''image/'' fileType \<longrightarrow> startFileGhostDragArgs fileType = (''imageUrl'', 5000)"
    "prefix ''video/'' fileType \<longrightarrow> startFileGhostDragArgs fileType = (''video'', 10000)"
    "prefix ''audio/'' fileType \<longrightarrow> startFileGhostDragArgs fileType = (''audio'', 30000)"
    by (auto simp: startFileGhostDragArgs_def prefix_def)
  from img vid files show ?thesis by blast
qed

theorem insert_ghost_default_durations_witness:
  "startGalleryGhostDragArgs \<lparr>itemKind = ''gallery-video'', assetDuration = Some 7000\<rparr>
     = Some (''video'', 7000)
   \<and> startGalleryGhostDragArgs \<lparr>itemKind = ''animation-effect'', assetDuration = None\<rparr>
     = Some (''video'', 10000)
   \<and> startGalleryGhostDragArgs \<lparr>itemKind = ''scene-image'', assetDuration = None\<rparr>
     = Some (''imageUrl'', 5000)
   \<and> startFileGhostDragArgs ''video/mp4'' = (''video'', 10000)
   \<and> startFileGhostDragArgs ''image/png'' = (''imageUrl'', 5000)
   \<and> startFileGhostDragArgs ''audio/mpeg'' = (''audio'', 30000)"
  using insert_ghost_default_durations
    [of "\<lparr>itemKind = ''gallery-video'', assetDuration = Some 7000\<rparr>" "''video/mp4''"]
    insert_ghost_default_durations
    [of "\<lparr>itemKind = ''animation-effect'', assetDuration = None\<rparr>" "''image/png''"]
    insert_ghost_default_durations
    [of "\<lparr>itemKind = ''scene-image'', assetDuration = None\<rparr>" "''audio/mpeg''"]
  by simp

text \<open>
  The claim as stated gives audio sources 10000 ms: an audio file that the handler
  accepts on an empty row starts its ghost with 30000 ms. It also lets every asset
  override the default: a gallery image starts with 5000 ms whatever duration its
  payload carries.
\<close>

theorem audio_file_ghost_duration_counterexample:
  "fileDragAccepted ''audio/mpeg'' []
   \<and> startFileGhostDragArgs ''audio/mpeg'' = (''audio'', 30000)
   \<and> snd (startFileGhostDragArgs ''audio/mpeg'') \<noteq> 10000
   \<and> startGalleryGhostDragArgs \<lparr>itemKind = ''gallery-image'', assetDuration = Some 8000\<rparr>
        = Some (''imageUrl'', 5000)"
  by (simp add: fileDragAccepted_def rowAccepts_def startFileGhostDragArgs_def
      startGalleryGhostDragArgs_def)

subsection \<open>Gap insertion\<close>

lemma insortBy_byStart: "insortBy byStart x ys = insort_key (\<lambda>e. start (timeFrame e)) x ys"
  by (induction ys) (auto simp: byStart_def)

lemma sortBy_byStart: "sortBy byStart xs = sort_key (\<lambda>e. start (timeFrame e)) xs"
  unfolding sortBy_def sort_key_def
  by (induction xs) (simp_all add: insortBy_byStart)

text \<open>The scan returns the start of the first gap, from index \<open>i0\<close> on, that is wide enough.\<close>

lemma findGap_Some:
  "findGap S M g i0 = Some v \<longleftrightarrow>
     (\<exists>i. i0 \<le> i \<and> i \<le> length S \<and> gapWidth S M i \<ge> g
          \<and> (\<forall>j. i0 \<le> j \<and> j < i \<longrightarrow> gapWidth S M j < g) \<and> v = currentStartAt S i)"
proof (induction S M g i0 rule: findGap.induct)
  case (1 S M g i)
  show ?case
  proof (cases "i \<le> length S")
    case False
    then show ?thesis by (subst findGap.simps) auto
  next
    case inb: True
    show ?thesis
    proof (cases "gapWidth S M i \<ge> g")
      case True
      have "findGap S M g i = Some (currentStartAt S i)"
        using inb True by (subst findGap.simps) (simp add: gapWidth_def)
      moreover have "(\<exists>k. i \<le> k \<and> k \<le> length S \<and> gapWidth S M k \<ge> g
          \<and> (\<forall>j. i \<le> j \<and> j < k \<longrightarrow> gapWidth S M j < g) \<and> v = currentStartAt S k)
          \<longleftrightarrow> v = currentStartAt S i"
        using inb True
        by (metis le_refl linorder_not_le nat_less_le)
      ultimately show ?thesis by auto
    next
      case False
      have step: "findGap S M g i = findGap S M g (i + 1)"
        using inb False by (subst findGap.simps) (simp add: gapWidth_def)
      have IH: "findGap S M g (i + 1) = Some v \<longleftrightarrow>
        (\<exists>k. i + 1 \<le> k \<and> k \<le> length S \<and> gapWidth S M k \<ge> g
          \<and> (\<forall>j. i + 1 \<le> j \<and> j < k \<longrightarrow> gapWidth S M j < g) \<and> v = currentStartAt S k)"
        using 1 inb False by (simp add: gapWidth_def)
      have "(\<exists>k. i + 1 \<le> k \<and> k \<le> length S \<and> gapWidth S M k \<ge> g
          \<and> (\<forall>j. i + 1 \<le> j \<and> j < k \<longrightarrow> gapWidth S M j < g) \<and> v = currentStartAt S k)
        \<longleftrightarrow> (\<exists>k. i \<le> k \<and> k \<le> length S \<and> gapWidth S M k \<ge> g
          \<and> (\<forall>j. i \<le> j \<and> j < k \<longrightarrow> gapWidth S M j < g) \<and> v = currentStartAt S k)"
        (is "?L \<longleftrightarrow> ?R")
      proof
        assume ?L
        then obtain k where k: "i + 1 \<le> k" "k \<le> length S" "gapWidth S M k \<ge> g"
          "\<forall>j. i + 1 \<le> j \<and> j < k \<longrightarrow> gapWidth S M j < g" "v = currentStartAt S k" by blast
        have "\<forall>j. i \<le> j \<and> j < k \<longrightarrow> gapWidth S M j < g"
        proof (intro allI impI)
          fix j assume "i \<le> j \<and> j < k"
          then show "gapWidth S M j < g"
            using k(4) False by (cases "j = i") auto
        qed
        with k show ?R by (intro exI [of _ k]) auto
      next
        assume ?R
        then obtain k where k: "i \<le> k" "k \<le> length S" "gapWidth S M k \<ge> g"
          "\<forall>j. i \<le> j \<and> j < k \<longrightarrow> gapWidth S M j < g" "v = currentStartAt S k" by blast
        have "k \<noteq> i" using k(3) False by auto
        with k show ?L by (intro exI [of _ k]) auto
      qed
      with step IH show ?thesis by simp
    qed
  qed
qed

lemma findGap_first:
  assumes "i \<le> length S" "gapWidth S M i \<ge> g" "\<forall>j<i. gapWidth S M j < g"
  shows "findGap S M g 0 = Some (currentStartAt S i)"
  using assms by (subst findGap_Some) (intro exI [of _ i], simp)

lemma findGap_none:
  assumes "\<forall>i\<le>length S. gapWidth S M i < g"
  shows "findGap S M g 0 = None"
proof (cases "findGap S M g 0")
  case (Some v)
  then obtain i where "i \<le> length S" "gapWidth S M i \<ge> g"
    unfolding findGap_Some by blast
  with assms show ?thesis by force
qed simp

text \<open>
  Claim C4, as amended. A gallery or scene image dropped without a ghost position goes to
  the target row: the elements of the row are sorted by start time (stably), and the
  image is placed at the start of the first gap, counting the regions before the first
  and after the last element, that is at least 5000 ms wide, the fixed least width for
  images. A row without elements takes the image at time 0. When the row has elements
  and no such gap, \<open>shiftRowsDown(rowIndex + 1)\<close> is called and the image is placed at
  time 0 of row \<open>rowIndex + 1\<close>.
\<close>

theorem gallery_image_fallback_gap_insertion:
  assumes kind: "itemType = ''gallery-image'' \<or> itemType = ''scene-image''"
    and fallback: "\<not> (isGalleryDragging g \<and> hasGalleryGhostElement g)"
    and S: "S = sortBy byStart (filter (\<lambda>el. row el = rowIndex) elements)"
    and result: "result = dropGalleryImage itemType r x img elements rowIndex maxTime g"
    and place: "place = AddImageLocal (jsOr (googleCloudUrl img) (url img))
                          (jsOr (minGoogleCloudUrl img) (minUrl img))"
  shows "mset S = mset (filter (\<lambda>el. row el = rowIndex) elements)
     \<and> sorted (map (\<lambda>e. start (timeFrame e)) S)
     \<and> (S = [] \<longrightarrow> result = Some (Inr [place rowIndex 0]))
     \<and> (S \<noteq> [] \<and> i \<le> length S \<and> gapWidth S maxTime i \<ge> 5000
           \<and> (\<forall>j<i. gapWidth S maxTime j < 5000)
         \<longrightarrow> result = Some (Inr [place rowIndex (currentStartAt S i)]))
     \<and> (S \<noteq> [] \<and> (\<forall>k\<le>length S. gapWidth S maxTime k < 5000)
         \<longrightarrow> result = Some (Inr [ShiftRowsDown (rowIndex + 1), place (rowIndex + 1) 0]))"
proof -
  let ?rowElements = "filter (\<lambda>el. row el = rowIndex) elements"
  have S': "S = sort_key (\<lambda>e. start (timeFrame e)) ?rowElements"
    using S by (simp add: sortBy_byStart)
  have perm: "mset S = mset ?rowElements" and sorted: "sorted (map (\<lambda>e. start (timeFrame e)) S)"
    unfolding S' by simp_all
  have empty_iff: "S = [] \<longleftrightarrow> ?rowElements = []"
    using perm by (metis mset_zero_iff)
  have res: "result =
      Some (case (if length ?rowElements > 0 then findGap S maxTime 5000 0 else Some 0) of
              Some startTime \<Rightarrow> Inr [place rowIndex startTime]
            | None \<Rightarrow> Inr [ShiftRowsDown (rowIndex + 1), place (rowIndex + 1) 0])"
    using kind fallback unfolding result place S dropGalleryImage_def Let_def by auto
  have a: "S = [] \<longrightarrow> result = Some (Inr [place rowIndex 0])"
    using empty_iff by (simp add: res)
  have b: "S \<noteq> [] \<and> i \<le> length S \<and> gapWidth S maxTime i \<ge> 5000
           \<and> (\<forall>j<i. gapWidth S maxTime j < 5000)
         \<longrightarrow> result = Some (Inr [place rowIndex (currentStartAt S i)])"
    using empty_iff findGap_first [of i S 5000 maxTime] by (auto simp: res)
  have c: "S \<noteq> [] \<and> (\<forall>k\<le>length S. gapWidth S maxTime k < 5000)
         \<longrightarrow> result = Some (Inr [ShiftRowsDown (rowIndex + 1), place (rowIndex + 1) 0])"
    using empty_iff findGap_none [of S maxTime 5000] by (auto simp: res)
  from perm sorted a b c show ?thesis by blast
qed

text \<open>
  A row with elements at [7000, 9000] and [0, 2000] and another row's element: the image
  goes to time 2000, the start of the gap of 5000 ms between the two. On a row with
  elements at [0, 2000] and [5000, 7000] no gap is wide enough and the next row takes the
  image; a row without elements takes it at time 0.
\<close>

theorem gallery_image_fallback_gap_insertion_witness:
  "dropGalleryImage ''gallery-image'' None None exampleImage
     [exampleElement ''b'' ''imageUrl'' 0 7000 9000, exampleElement ''a'' ''imageUrl'' 0 0 2000,
      exampleElement ''c'' ''video'' 1 0 2000] 0 10000 noGhost
   = Some (Inr [AddImageLocal (Some ''https://example.org/a.png'')
                  (Some ''https://example.org/a_min.png'') 0 2000])
   \<and> dropGalleryImage ''gallery-image'' None None exampleImage
     [exampleElement ''a'' ''imageUrl'' 0 0 2000, exampleElement ''b'' ''imageUrl'' 0 5000 7000]
     0 10000 noGhost
   = Some (Inr [ShiftRowsDown 1,
                AddImageLocal (Some ''https://example.org/a.png'')
                  (Some ''https://example.org/a_min.png'') 1 0])
   \<and> dropGalleryImage ''scene-image'' None None exampleImage
     [exampleElement ''c'' ''video'' 1 0 2000] 0 10000 noGhost
   = Some (Inr [AddImageLocal (Some ''https://example.org/a.png'')
                  (Some ''https://example.org/a_min.png'') 0 0])"
proof -
  let ?els = "[exampleElement ''b'' ''imageUrl'' 0 7000 9000,
               exampleElement ''a'' ''imageUrl'' 0 0 2000, exampleElement ''c'' ''video'' 1 0 2000]"
  let ?S = "[exampleElement ''a'' ''imageUrl'' 0 0 2000, exampleElement ''b'' ''imageUrl'' 0 7000 9000]"
  let ?T = "[exampleElement ''a'' ''imageUrl'' 0 0 2000, exampleElement ''b'' ''imageUrl'' 0 5000 7000]"
  have kind: "''gallery-image'' = ''gallery-image'' \<or> ''gallery-image'' = ''scene-image''"
    and scene: "''scene-image'' = ''gallery-image'' \<or> ''scene-image'' = ''scene-image''"
    by simp_all
  have fallback: "\<not> (isGalleryDragging noGhost \<and> hasGalleryGhostElement noGhost)"
    by (simp add: noGhost_def)
  have S: "?S = sortBy byStart (filter (\<lambda>el. row el = 0) ?els)"
    by (simp add: sortBy_def byStart_def exampleElement_def)
  have gaps: "?S \<noteq> [] \<and> 1 \<le> length ?S \<and> gapWidth ?S 10000 1 \<ge> 5000
      \<and> (\<forall>j<1. gapWidth ?S 10000 j < 5000)"
    by (simp add: gapWidth_def nextStartAt_def currentStartAt_def exampleElement_def)
  have at: "currentStartAt ?S 1 = 2000"
    by (simp add: currentStartAt_def exampleElement_def)
  have found: "dropGalleryImage ''gallery-image'' None None exampleImage ?els 0 10000 noGhost
      = Some (Inr [AddImageLocal (Some ''https://example.org/a.png'')
                  (Some ''https://example.org/a_min.png'') 0 2000])"
    using gaps at
      gallery_image_fallback_gap_insertion [OF kind fallback S refl refl,
        of None None exampleImage 10000 1]
    by (simp add: exampleImage_def jsOr_def falsy_def)
  have T: "?T = sortBy byStart (filter (\<lambda>el. row el = 0) ?T)"
    by (simp add: sortBy_def byStart_def exampleElement_def)
  have narrow: "\<forall>k\<le>length ?T. gapWidth ?T 10000 k < 5000"
  proof (intro allI impI)
    fix k assume "k \<le> length ?T"
    then have "k = 0 \<or> k = 1 \<or> k = 2" by auto
    then show "gapWidth ?T 10000 k < 5000"
      by (auto simp: gapWidth_def nextStartAt_def currentStartAt_def exampleElement_def)
  qed
  have shifted: "dropGalleryImage ''gallery-image'' None None exampleImage ?T 0 10000 noGhost
      = Some (Inr [ShiftRowsDown 1,
                AddImageLocal (Some ''https://example.org/a.png'')
                  (Some ''https://example.org/a_min.png'') 1 0])"
    using narrow
      gallery_image_fallback_gap_insertion [OF kind fallback T refl refl,
        of None None exampleImage 10000]
    by (simp add: exampleImage_def jsOr_def falsy_def)
  have E: "[] = sortBy byStart (filter (\<lambda>el. row el = 0) [exampleElement ''c'' ''video'' 1 0 2000])"
    by (simp add: sortBy_def exampleElement_def)
  have empty: "dropGalleryImage ''scene-image'' None None exampleImage
      [exampleElement ''c'' ''video'' 1 0 2000] 0 10000 noGhost
      = Some (Inr [AddImageLocal (Some ''https://example.org/a.png'')
                  (Some ''https://example.org/a_min.png'') 0 0])"
    using gallery_image_fallback_gap_insertion [OF scene fallback E refl refl,
        of None None exampleImage 10000]
    by (simp add: exampleImage_def jsOr_def falsy_def)
  from found shifted empty show ?thesis by blast
qed

text \<open>
  The example of the claim as stated: with elements at [0, 2000] and [5000, 7000] and
  \<open>maxTime = 10000\<close> no gap is 5000 ms wide, so the image is not placed at 2000: the rows
  are shifted and it goes to time 0 of the next row. The least width 10000 of the video
  and animation-effect copies of the loop finds no gap either; only a least width of
  1000, which no copy of the handler uses, would give 2000.
\<close>

theorem gap_insertion_example_counterexample:
  "dropGalleryImage ''gallery-image'' None None exampleImage
     [exampleElement ''a'' ''imageUrl'' 0 0 2000, exampleElement ''b'' ''imageUrl'' 0 5000 7000]
     0 10000 noGhost
   = Some (Inr [ShiftRowsDown 1,
                AddImageLocal (Some ''https://example.org/a.png'')
                  (Some ''https://example.org/a_min.png'') 1 0])
   \<and> findGap (sortBy byStart
        [exampleElement ''a'' ''imageUrl'' 0 0 2000, exampleElement ''b'' ''imageUrl'' 0 5000 7000])
        10000 10000 0 = None
   \<and> findGap (sortBy byStart
        [exampleElement ''a'' ''imageUrl'' 0 0 2000, exampleElement ''b'' ''imageUrl'' 0 5000 7000])
        10000 1000 0 = Some 2000"
  by code_simp

subsection \<open>Single moves\<close>

lemma resolveFinalStart_range:
  "dur \<le> maxTime \<Longrightarrow>
     0 \<le> resolveFinalStart p dur maxTime \<and> resolveFinalStart p dur maxTime \<le> maxTime - dur"
  by (auto simp: resolveFinalStart_def)

lemma finishGhostDrag_range:
  assumes "draggedElement g = Some d"
    and "\<forall>el\<in>set els. ident el = ident d \<longrightarrow> duration el \<le> maxTime"
    and "el' \<in> set (finishGhostDrag p r maxTime g els)" "ident el' = ident d"
  shows "0 \<le> start (timeFrame el') \<and> start (timeFrame el') \<le> maxTime - duration el'
         \<and> endT (timeFrame el') \<le> maxTime"
proof -
  from assms(3) obtain el where el: "el \<in> set els"
    "el' = (if ident el = ident d
            then (let finalStart = resolveFinalStart p (duration el) maxTime
                  in el\<lparr>row := r, timeFrame := \<lparr>start = finalStart, endT = finalStart + duration el\<rparr>\<rparr>)
            else el)"
    unfolding finishGhostDrag_def using assms(1) by auto
  have same: "ident el = ident d" using el(2) assms(4) by (auto split: if_splits)
  then have dur: "duration el \<le> maxTime" using assms(2) el(1) by blast
  have el': "el' = el\<lparr>row := r, timeFrame := \<lparr>start = resolveFinalStart p (duration el) maxTime,
       endT = resolveFinalStart p (duration el) maxTime + duration el\<rparr>\<rparr>"
    using el(2) same by (simp add: Let_def)
  have "duration el' = duration el" unfolding el' by (simp add: duration_def)
  then show ?thesis
    using resolveFinalStart_range [OF dur, of p] unfolding el' by (simp add: duration_def)
qed

text \<open>
  What the handler does on a single drag: nothing, or one call of a finish method for
  this row with a position clamped to [0, maxTime], and only on a compatible row.
\<close>

lemma drop_single_actions:
  assumes "dropTimelineItem itemType rect x overlays rowIndex maxTime g = Some (Inr (g', actions))"
    and "\<not> isMultiDragging g"
  shows "actions = [] \<and> g' = g \<or>
     (\<exists>p. (actions = [FinishGhostDrag p rowIndex] \<or> actions = [FinishAnimationGhostDrag p rowIndex])
        \<and> draggedElement g' = draggedElement g
        \<and> (0 \<le> maxTime \<longrightarrow> 0 \<le> p \<and> p \<le> maxTime))"
  using assms unfolding dropTimelineItem_def
  by (auto simp: Let_def split: if_splits option.splits sum.splits prod.splits)

lemma drop_single_rejected:
  assumes "dropTimelineItem itemType rect x overlays rowIndex maxTime g = Some (Inr (g', actions))"
    and "\<not> isMultiDragging g"
    and "draggedElement g = Some d"
    and "rowTypeOf overlays = Some rowType" "rowType \<noteq> []" "\<not> areTypesCompatible rowType (type d)"
  shows "actions = [] \<and> g' = g"
  using assms unfolding dropTimelineItem_def
  by (auto simp: Let_def split: if_splits option.splits sum.splits prod.splits)

text \<open>
  Claim C2. When the drop handler commits a single move (it calls a finish method of the
  store), the moved element starts in [0, maxTime - duration] after the commit, so it ends
  by \<open>maxTime\<close>; when the row's type is incompatible with the dragged element, the handler
  calls no store method and leaves the ghost state as it was, so neither the rows nor the
  element list change. The commit is the resolver of section 4.3; the handler itself
  clamps the position it passes to [0, maxTime].
\<close>

theorem single_move_commit_in_range_and_rejection_inert:
  assumes drop: "dropTimelineItem itemType rect x overlays rowIndex maxTime g = Some (Inr (g', actions))"
    and single: "\<not> isMultiDragging g"
    and dragged: "draggedElement g = Some d"
    and fits: "\<forall>el\<in>set elements. ident el = ident d \<longrightarrow> duration el \<le> maxTime"
  shows "(\<forall>p r el'. (FinishGhostDrag p r \<in> set actions \<or> FinishAnimationGhostDrag p r \<in> set actions)
             \<and> el' \<in> set (finishGhostDrag p r maxTime g' elements) \<and> ident el' = ident d
           \<longrightarrow> 0 \<le> start (timeFrame el') \<and> start (timeFrame el') \<le> maxTime - duration el'
               \<and> endT (timeFrame el') \<le> maxTime)
     \<and> ((\<exists>rowType. rowTypeOf overlays = Some rowType \<and> rowType \<noteq> []
            \<and> \<not> areTypesCompatible rowType (type d))
          \<longrightarrow> actions = [] \<and> g' = g)"
proof -
  have dragged': "draggedElement g' = Some d"
    using drop_single_actions [OF drop single] dragged by auto
  have range: "\<forall>p r el'. (FinishGhostDrag p r \<in> set actions \<or> FinishAnimationGhostDrag p r \<in> set actions)
             \<and> el' \<in> set (finishGhostDrag p r maxTime g' elements) \<and> ident el' = ident d
           \<longrightarrow> 0 \<le> start (timeFrame el') \<and> start (timeFrame el') \<le> maxTime - duration el'
               \<and> endT (timeFrame el') \<le> maxTime"
    using finishGhostDrag_range [OF dragged' fits] by blast
  have rejected: "(\<exists>rowType. rowTypeOf overlays = Some rowType \<and> rowType \<noteq> []
            \<and> \<not> areTypesCompatible rowType (type d))
          \<longrightarrow> actions = [] \<and> g' = g"
    using drop_single_rejected [OF drop single dragged] by blast
  from range rejected show ?thesis by blast
qed

text \<open>
  The video at [5000, 7000] dragged 1000 px to the right on a row 1000 px wide, with
  \<open>maxTime = 10000\<close>: the handler passes 10000 to the commit, which places it at 8000.
\<close>

theorem single_move_commit_in_range_and_rejection_inert_witness:
  "dropTimelineItem ''timeline-item'' (Some exampleRect) (Some 1100) [] 0 10000 exampleSingleDrag
     = Some (Inr (exampleSingleDrag, [FinishGhostDrag 10000 0]))
   \<and> map (\<lambda>el. start (timeFrame el))
        (finishGhostDrag 10000 0 10000 exampleSingleDrag [exampleElement ''v'' ''video'' 0 5000 7000])
     = [8000]
   \<and> 8000 \<le> 10000 - duration (exampleElement ''v'' ''video'' 0 8000 10000)
   \<and> dropTimelineItem ''timeline-item'' (Some exampleRect) (Some 1100)
        [exampleElement ''t'' ''text'' 2 0 1000] 2 10000 exampleSingleDrag
     = Some (Inr (exampleSingleDrag, []))"
proof -
  let ?v = "exampleElement ''v'' ''video'' 0 5000 7000"
  let ?row = "[exampleElement ''t'' ''text'' 2 0 1000]"
  have drop: "dropTimelineItem ''timeline-item'' (Some exampleRect) (Some 1100) [] 0 10000 exampleSingleDrag
     = Some (Inr (exampleSingleDrag, [FinishGhostDrag 10000 0]))"
    by (simp add: dropTimelineItem_def exampleSingleDrag_def noGhost_def exampleRect_def
        rowTypeOf_def deltaTimeOf_def)
  have single: "\<not> isMultiDragging exampleSingleDrag"
    by (simp add: exampleSingleDrag_def noGhost_def)
  have dragged: "draggedElement exampleSingleDrag = Some ?v"
    by (simp add: exampleSingleDrag_def)
  have fits: "\<forall>el\<in>set [?v]. ident el = ident ?v \<longrightarrow> duration el \<le> 10000"
    by (simp add: duration_def exampleElement_def)
  have moved: "finishGhostDrag 10000 0 10000 exampleSingleDrag [?v]
      = [exampleElement ''v'' ''video'' 0 8000 10000]"
    by (simp add: finishGhostDrag_def exampleSingleDrag_def exampleElement_def duration_def
        resolveFinalStart_def)
  from single_move_commit_in_range_and_rejection_inert [OF drop single dragged fits] moved
  have range: "start (timeFrame (exampleElement ''v'' ''video'' 0 8000 10000))
      \<le> 10000 - duration (exampleElement ''v'' ''video'' 0 8000 10000)"
    by (simp add: exampleElement_def)
  obtain g' actions where rejected:
    "dropTimelineItem ''timeline-item'' (Some exampleRect) (Some 1100) ?row 2 10000 exampleSingleDrag
       = Some (Inr (g', actions))"
    by (simp add: dropTimelineItem_def exampleSingleDrag_def noGhost_def exampleRect_def
        rowTypeOf_def exampleElement_def areTypesCompatible_def)
  have incompatible: "\<exists>rowType. rowTypeOf ?row = Some rowType \<and> rowType \<noteq> []
      \<and> \<not> areTypesCompatible rowType (type ?v)"
    by (simp add: rowTypeOf_def exampleElement_def areTypesCompatible_def)
  from single_move_commit_in_range_and_rejection_inert [OF rejected single dragged fits] incompatible
  have "actions = [] \<and> g' = exampleSingleDrag"
    by blast
  with rejected drop moved range show ?thesis by (simp add: exampleElement_def)
qed




subsection \<open>Multi moves\<close>

lemma findIndexById_Some:
  "findIndexById els i = Some n \<Longrightarrow> n < length els \<and> ident (els ! n) = i"
  by (induction els arbitrary: n) (auto split: if_splits)

lemma findIndexById_None: "findIndexById els i = None \<longleftrightarrow> i \<notin> ident ` set els"
  by (induction els) auto

lemma drop_multi_actions:
  assumes "dropTimelineItem itemType rect x overlays rowIndex maxTime g = Some (Inr (g', actions))"
    and "isMultiDragging g" and "FinishMultiGhostDrag p \<in> set actions"
  shows "g' = g \<and> actions = [FinishMultiGhostDrag p]
     \<and> (\<exists>dragged draggedIndex. draggedElement g = Some dragged
           \<and> findIndexById (selectedElements g) (ident dragged) = Some draggedIndex)"
  using assms unfolding dropTimelineItem_def
  by (auto simp: Let_def split: if_splits option.splits sum.splits prod.splits)

text \<open>The commit moves every selected element by the same amount and keeps its duration.\<close>

lemma multi_commit_shift:
  assumes dragged: "draggedElement g = Some dragged"
    and di: "findIndexById (selectedElements g) (ident dragged) = Some draggedIndex"
    and anchors: "initialElementStarts g = map (\<lambda>el. start (timeFrame el)) (selectedElements g)"
    and sel: "set (selectedElements g) \<subseteq> set elements"
    and ids: "distinct (map ident elements)"
    and m: "m < length elements" "elements ! m \<in> set (selectedElements g)"
  shows "start (timeFrame (finishMultiGhostDrag p g elements ! m))
       = start (timeFrame (elements ! m)) + (p - initialElementStarts g ! draggedIndex)
     \<and> ident (finishMultiGhostDrag p g elements ! m) = ident (elements ! m)
     \<and> duration (finishMultiGhostDrag p g elements ! m) = duration (elements ! m)"
proof -
  let ?el = "elements ! m"
  have "ident ?el \<in> ident ` set (selectedElements g)" using m(2) by blast
  then obtain i where i: "findIndexById (selectedElements g) (ident ?el) = Some i"
    using findIndexById_None [of "selectedElements g" "ident ?el"]
    by (cases "findIndexById (selectedElements g) (ident ?el)") auto
  then have ilen: "i < length (selectedElements g)"
    and iid: "ident (selectedElements g ! i) = ident ?el"
    using findIndexById_Some by blast+
  have "selectedElements g ! i \<in> set elements" using ilen sel by auto
  moreover have "?el \<in> set elements" using m(1) by simp
  moreover have "inj_on ident (set elements)" using ids by (simp add: distinct_map)
  ultimately have same: "selectedElements g ! i = ?el" using iid by (auto dest: inj_onD)
  have anchor: "initialElementStarts g ! i = start (timeFrame ?el)"
    using anchors ilen same by simp
  have "finishMultiGhostDrag p g elements ! m =
      ?el\<lparr>timeFrame := \<lparr>start = initialElementStarts g ! i + (p - initialElementStarts g ! draggedIndex),
             endT = initialElementStarts g ! i + (p - initialElementStarts g ! draggedIndex) + duration ?el\<rparr>\<rparr>"
    unfolding finishMultiGhostDrag_def using dragged di i m(1) by (simp add: Let_def)
  then show ?thesis using anchor by (simp add: duration_def)
qed

text \<open>
  Claim C3. When the drop handler commits a multi move, any two selected elements are as
  far apart after the commit as they were before the drag: the difference of their start
  times is unchanged. The anchors are the selected elements' starts before the drag, the
  selected elements are elements of the list, and ids are unique.
\<close>

theorem multi_move_preserves_relative_offsets:
  assumes drop: "dropTimelineItem itemType rect x overlays rowIndex maxTime g = Some (Inr (g', actions))"
    and multi: "isMultiDragging g"
    and commit: "FinishMultiGhostDrag p \<in> set actions"
    and anchors: "initialElementStarts g = map (\<lambda>el. start (timeFrame el)) (selectedElements g)"
    and sel: "set (selectedElements g) \<subseteq> set elements"
    and ids: "distinct (map ident elements)"
    and m: "m < length elements" "elements ! m \<in> set (selectedElements g)"
    and n: "n < length elements" "elements ! n \<in> set (selectedElements g)"
  shows "start (timeFrame (finishMultiGhostDrag p g' elements ! m))
           - start (timeFrame (finishMultiGhostDrag p g' elements ! n))
         = start (timeFrame (elements ! m)) - start (timeFrame (elements ! n))
     \<and> ident (finishMultiGhostDrag p g' elements ! m) = ident (elements ! m)
     \<and> ident (finishMultiGhostDrag p g' elements ! n) = ident (elements ! n)"
proof -
  from drop_multi_actions [OF drop multi commit] obtain dragged draggedIndex
    where g': "g' = g" and dragged: "draggedElement g = Some dragged"
      and di: "findIndexById (selectedElements g) (ident dragged) = Some draggedIndex"
    by blast
  show ?thesis
    unfolding g'
    using multi_commit_shift [OF dragged di anchors sel ids m, of p]
      multi_commit_shift [OF dragged di anchors sel ids n, of p]
    by simp
qed

text \<open>
  The selection a = [0, 2000], b = [3000, 4000] dragged 200 px to the right: the handler
  passes 2000 for a, the commit puts a at 2000 and b at 5000, still 3000 ms apart.
\<close>

theorem multi_move_preserves_relative_offsets_witness:
  "dropTimelineItem ''timeline-item'' (Some exampleRect) (Some 300) [] 0 10000 exampleMultiDrag
     = Some (Inr (exampleMultiDrag, [FinishMultiGhostDrag 2000]))
   \<and> map (\<lambda>el. start (timeFrame el))
        (finishMultiGhostDrag 2000 exampleMultiDrag
           [exampleElement ''a'' ''video'' 0 0 2000, exampleElement ''t'' ''text'' 2 0 1000,
            exampleElement ''b'' ''image'' 1 3000 4000])
     = [2000, 0, 5000]
   \<and> start (timeFrame (finishMultiGhostDrag 2000 exampleMultiDrag
           [exampleElement ''a'' ''video'' 0 0 2000, exampleElement ''t'' ''text'' 2 0 1000,
            exampleElement ''b'' ''image'' 1 3000 4000] ! 2))
       - start (timeFrame (finishMultiGhostDrag 2000 exampleMultiDrag
           [exampleElement ''a'' ''video'' 0 0 2000, exampleElement ''t'' ''text'' 2 0 1000,
            exampleElement ''b'' ''image'' 1 3000 4000] ! 0))
     = 3000"
proof -
  let ?els = "[exampleElement ''a'' ''video'' 0 0 2000, exampleElement ''t'' ''text'' 2 0 1000,
               exampleElement ''b'' ''image'' 1 3000 4000]"
  have drop: "dropTimelineItem ''timeline-item'' (Some exampleRect) (Some 300) [] 0 10000 exampleMultiDrag
     = Some (Inr (exampleMultiDrag, [FinishMultiGhostDrag 2000]))"
    by (simp add: dropTimelineItem_def exampleMultiDrag_def noGhost_def exampleRect_def
        deltaTimeOf_def exampleElement_def)
  have multi: "isMultiDragging exampleMultiDrag"
    by (simp add: exampleMultiDrag_def)
  have commit: "FinishMultiGhostDrag 2000 \<in> set [FinishMultiGhostDrag 2000]"
    by simp
  have anchors: "initialElementStarts exampleMultiDrag
      = map (\<lambda>el. start (timeFrame el)) (selectedElements exampleMultiDrag)"
    by (simp add: exampleMultiDrag_def exampleElement_def)
  have sel: "set (selectedElements exampleMultiDrag) \<subseteq> set ?els"
    by (simp add: exampleMultiDrag_def)
  have ids: "distinct (map ident ?els)"
    by (simp add: exampleElement_def)
  have m: "2 < length ?els" "?els ! 2 \<in> set (selectedElements exampleMultiDrag)"
    by (simp_all add: exampleMultiDrag_def)
  have n: "0 < length ?els" "?els ! 0 \<in> set (selectedElements exampleMultiDrag)"
    by (simp_all add: exampleMultiDrag_def)
  have starts: "map (\<lambda>el. start (timeFrame el)) (finishMultiGhostDrag 2000 exampleMultiDrag ?els)
      = [2000, 0, 5000]"
    by (simp add: finishMultiGhostDrag_def exampleMultiDrag_def exampleElement_def duration_def)
  have "start (timeFrame (?els ! 2)) - start (timeFrame (?els ! 0)) = 3000"
    by (simp add: exampleElement_def)
  with multi_move_preserves_relative_offsets [OF drop multi commit anchors sel ids m n]
  have "start (timeFrame (finishMultiGhostDrag 2000 exampleMultiDrag ?els ! 2))
       - start (timeFrame (finishMultiGhostDrag 2000 exampleMultiDrag ?els ! 0)) = 3000"
    by simp
  with drop starts show ?thesis by simp
qed

subsection \<open>Paint order\<close>

lemma paintOrder_le: "paintOrder x y \<le> 0 \<longleftrightarrow> paintKey x \<le> paintKey y"
  by (auto simp: paintOrder_def paintKey_def less_eq_prod_def)

lemma insortBy_paintOrder: "insortBy paintOrder x ys = insort_key paintKey x ys"
  by (induction ys) (simp_all add: paintOrder_le)

lemma sortedElements_sort_key: "sortedElements xs = sort_key paintKey xs"
  unfolding sortedElements_def sortBy_def sort_key_def
  by (induction xs) (simp_all add: insortBy_paintOrder)

text \<open>
  Claim C7, as amended. The pass arranges the elements in paint order, the position in the
  list being the paint index, so that every text element comes after every element that
  is not text (text is topmost); the elements that are not text are ordered by descending
  row index, and so are the text elements; of two elements of the same group in
  different rows, the one of the row higher up in the timeline, which is the smaller row
  index, has the larger paint index and is painted on top; and elements of the same
  group and the same row keep the order they have in the element list. The arrangement
  is a permutation of the list.
\<close>

theorem paint_order_text_last_rows_descending_stable:
  "mset (sortedElements xs) = mset xs
   \<and> (\<forall>i j. i < j \<and> j < length xs \<longrightarrow>
         (type (sortedElements xs ! i) = ''text'' \<longrightarrow> type (sortedElements xs ! j) = ''text'')
       \<and> ((type (sortedElements xs ! i) = ''text'') = (type (sortedElements xs ! j) = ''text'')
            \<longrightarrow> row (sortedElements xs ! j) \<le> row (sortedElements xs ! i)))
   \<and> (\<forall>i j. i < length xs \<and> j < length xs
         \<and> type (sortedElements xs ! i) = ''text'' \<and> type (sortedElements xs ! j) \<noteq> ''text''
         \<longrightarrow> j < i)
   \<and> (\<forall>i j. i < length xs \<and> j < length xs
         \<and> (type (sortedElements xs ! i) = ''text'') = (type (sortedElements xs ! j) = ''text'')
         \<and> row (sortedElements xs ! i) < row (sortedElements xs ! j)
         \<longrightarrow> j < i)
   \<and> (\<forall>t r. filter (\<lambda>e. (type e = ''text'') = t \<and> row e = r) (sortedElements xs)
            = filter (\<lambda>e. (type e = ''text'') = t \<and> row e = r) xs)"
proof -
  let ?out = "sortedElements xs"
  have perm: "mset ?out = mset xs" by (simp add: sortedElements_sort_key)
  have len: "length ?out = length xs" by (simp add: sortedElements_sort_key)
  have sorted: "sorted (map paintKey ?out)" by (simp add: sortedElements_sort_key)
  have order: "\<forall>i j. i < j \<and> j < length xs \<longrightarrow>
         (type (?out ! i) = ''text'' \<longrightarrow> type (?out ! j) = ''text'')
       \<and> ((type (?out ! i) = ''text'') = (type (?out ! j) = ''text'')
            \<longrightarrow> row (?out ! j) \<le> row (?out ! i))"
  proof (intro allI impI)
    fix i j assume ij: "i < j \<and> j < length xs"
    then have "paintKey (?out ! i) \<le> paintKey (?out ! j)"
      using sorted len by (simp add: sorted_iff_nth_mono)
    then show "(type (?out ! i) = ''text'' \<longrightarrow> type (?out ! j) = ''text'')
       \<and> ((type (?out ! i) = ''text'') = (type (?out ! j) = ''text'')
            \<longrightarrow> row (?out ! j) \<le> row (?out ! i))"
      by (auto simp: paintKey_def less_eq_prod_def split: if_splits)
  qed
  have topmost: "\<forall>i j. i < length xs \<and> j < length xs
         \<and> type (?out ! i) = ''text'' \<and> type (?out ! j) \<noteq> ''text''
         \<longrightarrow> j < i"
  proof (intro allI impI)
    fix i j
    assume h: "i < length xs \<and> j < length xs
         \<and> type (?out ! i) = ''text'' \<and> type (?out ! j) \<noteq> ''text''"
    show "j < i"
    proof (rule ccontr)
      assume "\<not> j < i"
      then consider "i < j" | "i = j" by linarith
      then show False
      proof cases
        case 1
        then show False using order h by blast
      next
        case 2
        then show False using h by simp
      qed
    qed
  qed
  have above: "\<forall>i j. i < length xs \<and> j < length xs
         \<and> (type (?out ! i) = ''text'') = (type (?out ! j) = ''text'')
         \<and> row (?out ! i) < row (?out ! j)
         \<longrightarrow> j < i"
  proof (intro allI impI)
    fix i j
    assume h: "i < length xs \<and> j < length xs
         \<and> (type (?out ! i) = ''text'') = (type (?out ! j) = ''text'')
         \<and> row (?out ! i) < row (?out ! j)"
    show "j < i"
    proof (rule ccontr)
      assume "\<not> j < i"
      then consider "i < j" | "i = j" by linarith
      then show False
      proof cases
        case 1
        then have "row (?out ! j) \<le> row (?out ! i)" using order h by blast
        then show False using h by simp
      next
        case 2
        then show False using h by simp
      qed
    qed
  qed
  have stable: "\<forall>t r. filter (\<lambda>e. (type e = ''text'') = t \<and> row e = r) ?out
            = filter (\<lambda>e. (type e = ''text'') = t \<and> row e = r) xs"
  proof (intro allI)
    fix t r
    have eq: "(\<lambda>e. (type e = ''text'') = t \<and> row e = r)
        = (\<lambda>e. paintKey e = (if t then 1 else 0, - r))"
      by (auto simp: paintKey_def fun_eq_iff)
    show "filter (\<lambda>e. (type e = ''text'') = t \<and> row e = r) ?out
            = filter (\<lambda>e. (type e = ''text'') = t \<and> row e = r) xs"
      unfolding eq sortedElements_sort_key by (rule sort_key_stable)
  qed
  from perm order topmost above stable show ?thesis by blast
qed

text \<open>
  Five elements: the videos and the audio come first, row 1 before row 0, then the texts,
  row 1 before row 0. In a pass over the image of row 0 and a video of row 1 the video
  is moved to paint index 0 and the image of row 0 to index 1, above it.
\<close>

theorem paint_order_text_last_rows_descending_stable_witness:
  "map ident (sortedElements
     [exampleElement ''a'' ''video'' 0 0 1, exampleElement ''b'' ''video'' 1 0 1,
      exampleElement ''t0'' ''text'' 0 0 1, exampleElement ''c'' ''audio'' 1 0 1,
      exampleElement ''t1'' ''text'' 1 0 1])
   = [''b'', ''c'', ''a'', ''t1'', ''t0'']
   \<and> row (sortedElements
     [exampleElement ''a'' ''video'' 0 0 1, exampleElement ''b'' ''video'' 1 0 1,
      exampleElement ''t0'' ''text'' 0 0 1, exampleElement ''c'' ''audio'' 1 0 1,
      exampleElement ''t1'' ''text'' 1 0 1] ! 2)
     \<le> row (sortedElements
     [exampleElement ''a'' ''video'' 0 0 1, exampleElement ''b'' ''video'' 1 0 1,
      exampleElement ''t0'' ''text'' 0 0 1, exampleElement ''c'' ''audio'' 1 0 1,
      exampleElement ''t1'' ''text'' 1 0 1] ! 0)
   \<and> calls (refreshElementsUtil neverThrows 1
        (exampleStore [localImage, (exampleElement ''v'' ''video'' 1 0 1000)]))
     = [CanvasOff ''object:modified'', CanvasOff ''object:added'', CanvasClear,
        CanvasOn ''object:modified'', StoreMethod ''updateCanvasFrameFill'' [],
        CanvasAdd ''v'', CanvasMoveTo ''v'' 0, CanvasAdd ''i'', CanvasMoveTo ''i'' 1,
        StoreMethod ''refreshAnimations'' [], StoreMethod ''updateTimeTo'' [], RequestRenderAll]"
proof -
  let ?xs = "[exampleElement ''a'' ''video'' 0 0 1, exampleElement ''b'' ''video'' 1 0 1,
      exampleElement ''t0'' ''text'' 0 0 1, exampleElement ''c'' ''audio'' 1 0 1,
      exampleElement ''t1'' ''text'' 1 0 1]"
  have out: "map ident (sortedElements ?xs) = [''b'', ''c'', ''a'', ''t1'', ''t0'']"
    by code_simp
  have types: "(type (sortedElements ?xs ! 0) = ''text'') = (type (sortedElements ?xs ! 2) = ''text'')"
    by code_simp
  have "(0::nat) < 2 \<and> 2 < length ?xs" by simp
  with paint_order_text_last_rows_descending_stable [of ?xs, THEN conjunct2, THEN conjunct1] types
  have rows: "row (sortedElements ?xs ! 2) \<le> row (sortedElements ?xs ! 0)"
    by blast
  have pass: "calls (refreshElementsUtil neverThrows 1
        (exampleStore [localImage, (exampleElement ''v'' ''video'' 1 0 1000)]))
     = [CanvasOff ''object:modified'', CanvasOff ''object:added'', CanvasClear,
        CanvasOn ''object:modified'', StoreMethod ''updateCanvasFrameFill'' [],
        CanvasAdd ''v'', CanvasMoveTo ''v'' 0, CanvasAdd ''i'', CanvasMoveTo ''i'' 1,
        StoreMethod ''refreshAnimations'' [], StoreMethod ''updateTimeTo'' [], RequestRenderAll]"
    by code_simp
  from out rows pass show ?thesis by simp
qed

text \<open>
  The claim as stated keeps the elements of each group in their order of the list, and
  orders by row only the elements that are not text. Two text elements of rows 0 and 1
  change places.
\<close>

theorem paint_order_counterexample:
  "map ident (sortedElements
        [exampleElement ''t0'' ''text'' 0 0 1, exampleElement ''t1'' ''text'' 1 0 1])
     = [''t1'', ''t0'']"
  by code_simp

subsection \<open>The fields that control a pass are written by the pass only at its ends\<close>

lemma control_logCall [simp]: "control (logCall c s) = control s"
  by (simp add: control_def logCall_def)

lemma control_storeMethod [simp]: "control (reached (storeMethod throws name arg s)) = control s"
  by (simp add: storeMethod_def)

lemma control_afterSwitch [simp]: "control (afterSwitch index element s) = control s"
  by (simp add: afterSwitch_def split: option.splits)

lemma control_realize [simp]: "control (realize element s) = control s"
  by (simp add: control_def realize_def)

lemma control_materializeVideo:
  "control (fst (reached (materializeVideo index element acc))) = control (fst acc)"
  by (simp add: materializeVideo_def split: option.splits)

lemma control_materializeImage:
  "control (fst (reached (materializeImage now index element acc))) = control (fst acc)"
  by (simp add: materializeImage_def Let_def afterSwitch_def control_def logCall_def realize_def
      split: option.splits)

lemma control_materializeText:
  "control (fst (reached (materializeText throws index element acc))) = control (fst acc)"
proof -
  have sm: "\<And>name arg s. control (reached (storeMethod throws name arg s)) = control s"
    by simp
  show ?thesis
    unfolding materializeText_def Let_def
    apply (simp split: completion.splits option.splits)
    apply (auto simp: andThen_def storeMethod_def split: completion.splits option.splits if_splits)
    done
qed

lemma control_ensureAudio:
  "control (fst (reached (ensureAudio index element acc))) = control (fst acc)"
  by (simp add: ensureAudio_def Let_def control_def logCall_def afterSwitch_def split: option.splits)

lemma control_processElement:
  "control (fst (reached (processElement throws now index element acc))) = control (fst acc)"
  by (simp add: processElement_def control_materializeVideo control_materializeImage
      control_materializeText control_ensureAudio)

lemma control_processElements:
  "control (fst (reached (processElements throws now index els acc))) = control (fst acc)"
proof (induction els arbitrary: index acc)
  case Nil
  then show ?case by simp
next
  case (Cons e els)
  show ?case
  proof (cases "processElement throws now index e acc")
    case (Normal acc')
    then show ?thesis
      using Cons [of "index + 1" acc'] control_processElement [of throws now index e acc] by simp
  next
    case (Throw acc')
    then show ?thesis
      using control_processElement [of throws now index e acc] by simp
  qed
qed

lemma control_beginPass: "control (beginPass s) = (hasCanvas s, True, suspended s)"
  by (simp add: beginPass_def control_def logCall_def)

lemma control_synchronousPart:
  "control (fst (reached (synchronousPart throws now s))) = (hasCanvas s, True, suspended s)"
proof (cases "storeMethod throws ''updateCanvasFrameFill'' [] (beginPass s)")
  case (Normal s1)
  then have "control s1 = (hasCanvas s, True, suspended s)"
    using control_storeMethod [of throws "''updateCanvasFrameFill''" "[]" "beginPass s"]
    by (simp add: control_beginPass)
  then show ?thesis
    using Normal control_processElements [of throws now 0 "sortedElements (editorElements s)" "(s1, [])"]
    by (simp add: synchronousPart_def)
next
  case (Throw s1)
  then have "control s1 = (hasCanvas s, True, suspended s)"
    using control_storeMethod [of throws "''updateCanvasFrameFill''" "[]" "beginPass s"]
    by (simp add: control_beginPass)
  then show ?thesis using Throw by (simp add: synchronousPart_def)
qed

lemma control_updateWordZIndexes:
  "control (reached (updateWordZIndexes throws els s)) = control s"
proof (induction els arbitrary: s)
  case Nil
  then show ?case by simp
next
  case (Cons e els)
  show ?case
  proof (cases "type e = ''text'' \<and> wordObjects (properties e) \<noteq> None")
    case True
    show ?thesis
    proof (cases "storeMethod throws ''updateWordZIndex'' (ident e) s")
      case (Normal s1)
      then show ?thesis
        using True Cons [of s1] control_storeMethod [of throws "''updateWordZIndex''" "ident e" s]
        by (simp add: andThen_def)
    next
      case (Throw s1)
      then show ?thesis
        using True control_storeMethod [of throws "''updateWordZIndex''" "ident e" s]
        by (simp add: andThen_def)
    qed
  next
    case False
    then show ?thesis using Cons [of s] by auto
  qed
qed

lemma control_andThen:
  assumes "\<And>a. control (reached (f a)) = control a"
  shows "control (reached (andThen c f)) = control (reached c)"
  using assms by (cases c) (simp_all add: andThen_def)

lemma control_finalUpdates: "control (reached (finalUpdates throws s)) = control s"
proof -
  define s1 where "s1 = (case selectedElement s of
                  None \<Rightarrow> s
                | Some selected \<Rightarrow>
                    (case fabricObject s selected of
                       None \<Rightarrow> s
                     | Some obj \<Rightarrow> logCall (SetActiveObject obj) s))"
  define f3 where "f3 = (\<lambda>s4. Normal (logCall RequestRenderAll s4))"
  define f2 where "f2 = (\<lambda>s3. andThen (updateWordZIndexes throws (editorElements s3) s3) f3)"
  define f1 where "f1 = (\<lambda>s2. andThen (storeMethod throws ''updateTimeTo'' [] s2) f2)"
  have c1: "control s1 = control s"
    by (simp add: s1_def split: option.splits)
  have fin: "finalUpdates throws s = andThen (storeMethod throws ''refreshAnimations'' [] s1) f1"
    by (simp add: finalUpdates_def s1_def f1_def f2_def f3_def Let_def)
  have c3: "\<And>a. control (reached (f3 a)) = control a"
    by (simp add: f3_def)
  have c2: "\<And>a. control (reached (f2 a)) = control a"
    unfolding f2_def using control_andThen [of f3, OF c3] by (simp add: control_updateWordZIndexes)
  have c1': "\<And>a. control (reached (f1 a)) = control a"
    unfolding f1_def using control_andThen [of f2, OF c2] by simp
  show ?thesis
    unfolding fin using control_andThen [of f1, OF c1'] c1 by simp
qed

lemma catchFinally_fields:
  "hasCanvas (catchFinally c) = hasCanvas (reached c)"
  "isRefreshingElements (catchFinally c) = False"
  "suspended (catchFinally c) = suspended (reached c)"
  by (cases c; simp add: catchFinally_def logCall_def)+

lemma initial_invariant: "initial s \<Longrightarrow> passInvariant s"
  by (simp add: initial_def passInvariant_def)

lemma invariant_refresh:
  assumes inv: "passInvariant s"
  shows "passInvariant (refreshElementsUtil throws now s)"
proof (cases "hasCanvas s \<and> \<not> isRefreshingElements s")
  case False
  then show ?thesis using inv by (auto simp: refreshElementsUtil_def)
next
  case True
  then have none: "suspended s = []" using inv by (simp add: passInvariant_def)
  have ctl: "control (fst (reached (synchronousPart throws now s))) = (hasCanvas s, True, [])"
    using control_synchronousPart [of throws now s] none by simp
  show ?thesis
  proof (cases "synchronousPart throws now s")
    case (Throw acc)
    then have "refreshElementsUtil throws now s = catchFinally (Throw (fst acc))"
      using True by (simp add: refreshElementsUtil_def split: prod.splits)
    moreover have "control (catchFinally (Throw (fst acc))) = (hasCanvas s, False, [])"
      using ctl Throw by (simp add: catchFinally_fields control_def)
    ultimately show ?thesis by (simp add: passInvariant_def control_def)
  next
    case (Normal acc)
    obtain s1 imagePromises where acc: "acc = (s1, imagePromises)" by (cases acc)
    have c1: "control s1 = (hasCanvas s, True, [])" using ctl Normal acc by simp
    show ?thesis
    proof (cases "imagePromises = []")
      case True
      have "refreshElementsUtil throws now s = catchFinally (finalUpdates throws s1)"
        using \<open>hasCanvas s \<and> \<not> isRefreshingElements s\<close> Normal acc True
        by (simp add: refreshElementsUtil_def)
      moreover have "control (catchFinally (finalUpdates throws s1)) = (hasCanvas s, False, [])"
        using control_finalUpdates [of throws s1] c1 by (simp add: catchFinally_fields control_def)
      ultimately show ?thesis by (simp add: passInvariant_def control_def)
    next
      case False
      have "refreshElementsUtil throws now s = s1\<lparr>suspended := suspended s1 @ [imagePromises]\<rparr>"
        using \<open>hasCanvas s \<and> \<not> isRefreshingElements s\<close> Normal acc False
        by (simp add: refreshElementsUtil_def)
      then show ?thesis using c1 False by (simp add: passInvariant_def control_def)
    qed
  qed
qed

lemma invariant_imageLoaded:
  assumes inv: "passInvariant s"
  shows "passInvariant (imageLoaded throws l s)"
proof (cases "find (\<lambda>p. loadId p = l) (pendingLoads s)")
  case None
  then show ?thesis using inv by (simp add: imageLoaded_def)
next
  case (Some ld)
  define s2 where "s2 = logCall (CanvasMoveTo (loadElement ld) (loadIndex ld))
      (logCall (CanvasAdd (loadElement ld))
         (s\<lparr>fabricObject := (fabricObject s)(loadElement ld \<mapsto> loadElement ld),
            pendingLoads := filter (\<lambda>p. loadId p \<noteq> l) (pendingLoads s)\<rparr>))"
  have c2: "control s2 = control s" by (simp add: s2_def control_def logCall_def)
  define waiting where "waiting = map (filter (\<lambda>k. k \<noteq> l)) (suspended s2)"
  have res: "imageLoaded throws l s =
      ((\<lambda>s'. catchFinally (finalUpdates throws s')) ^^ length (filter (\<lambda>w. w = []) waiting))
        (s2\<lparr>suspended := filter (\<lambda>w. w \<noteq> []) waiting\<rparr>)"
    using Some by (simp add: imageLoaded_def Let_def s2_def waiting_def)
  consider (idle) "suspended s = []"
    | (waits) p where "suspended s = [p]" "p \<noteq> []"
    using inv by (cases "suspended s") (auto simp: passInvariant_def)
  then show ?thesis
  proof cases
    case idle
    then have "waiting = []" using c2 by (simp add: waiting_def control_def)
    then have "imageLoaded throws l s = s2\<lparr>suspended := []\<rparr>" using res by simp
    then show ?thesis using inv idle c2 by (simp add: passInvariant_def control_def)
  next
    case waits
    then have w: "waiting = [filter (\<lambda>k. k \<noteq> l) p]" using c2 by (simp add: waiting_def control_def)
    show ?thesis
    proof (cases "filter (\<lambda>k. k \<noteq> l) p = []")
      case True
      then have "imageLoaded throws l s = catchFinally (finalUpdates throws (s2\<lparr>suspended := []\<rparr>))"
        using res w by simp
      moreover have "control (catchFinally (finalUpdates throws (s2\<lparr>suspended := []\<rparr>)))
          = (hasCanvas s, False, [])"
        using control_finalUpdates [of throws "s2\<lparr>suspended := []\<rparr>"] c2
        by (simp add: catchFinally_fields control_def)
      ultimately show ?thesis by (simp add: passInvariant_def control_def)
    next
      case False
      then have "imageLoaded throws l s = s2\<lparr>suspended := [filter (\<lambda>k. k \<noteq> l) p]\<rparr>"
        using res w by simp
      then show ?thesis using inv waits c2 False by (simp add: passInvariant_def control_def)
    qed
  qed
qed

lemma invariant_step: "passInvariant s \<Longrightarrow> passInvariant (step throws e s)"
  by (cases e) (simp_all add: invariant_refresh invariant_imageLoaded, simp add: passInvariant_def)

lemma invariant_run: "passInvariant s \<Longrightarrow> passInvariant (run throws events s)"
  unfolding run_def by (induction events arbitrary: s) (simp_all add: invariant_step)

lemma refresh_skipped: "isRefreshingElements s \<Longrightarrow> refreshElementsUtil throws now s = s"
  by (simp add: refreshElementsUtil_def)


text \<open>
  Claim C5. After any sequence of events, starting with no pass in flight, at most one
  pass is in flight and the flag is set exactly when one is: a pass that has finished,
  normally or with an error, has cleared it. A trigger that arrives while the flag is
  set changes nothing in the store: the scene is not touched and nothing is kept to run
  the pass later.
\<close>

theorem one_pass_at_a_time:
  assumes "initial s0"
  shows "passesInFlight (run throws events s0) \<le> 1
     \<and> isRefreshingElements (run throws events s0) = (passesInFlight (run throws events s0) = 1)
     \<and> (isRefreshingElements (run throws events s0)
          \<longrightarrow> step throws (Refresh now) (run throws events s0) = run throws events s0)
     \<and> \<not> isRefreshingElements (catchFinally c)"
proof -
  have inv: "passInvariant (run throws events s0)"
    using assms by (simp add: initial_invariant invariant_run)
  have a: "passesInFlight (run throws events s0) \<le> 1"
    using inv by (simp add: passInvariant_def passesInFlight_def)
  have b: "isRefreshingElements (run throws events s0) = (passesInFlight (run throws events s0) = 1)"
    using inv
    by (cases "suspended (run throws events s0)") (auto simp: passInvariant_def passesInFlight_def)
  have c: "isRefreshingElements (run throws events s0)
          \<longrightarrow> step throws (Refresh now) (run throws events s0) = run throws events s0"
    by (simp add: refresh_skipped)
  have d: "\<not> isRefreshingElements (catchFinally c)"
    by (cases c) (simp_all add: catchFinally_def)
  from a b c d show ?thesis by blast
qed

text \<open>
  A pass that loads a remote image is in flight after the first trigger; the second
  trigger is dropped; the completion of the load ends the pass and clears the flag.
\<close>

theorem one_pass_at_a_time_witness:
  "initial (exampleStore [remoteImage])
   \<and> isRefreshingElements (run neverThrows [Refresh 17] (exampleStore [remoteImage]))
   \<and> run neverThrows [Refresh 17, Refresh 18] (exampleStore [remoteImage])
       = run neverThrows [Refresh 17] (exampleStore [remoteImage])
   \<and> passesInFlight (run neverThrows [Refresh 17, Refresh 18] (exampleStore [remoteImage])) = 1
   \<and> \<not> isRefreshingElements
         (run neverThrows [Refresh 17, Refresh 18, ImageLoaded 0] (exampleStore [remoteImage]))"
proof -
  let ?s0 = "exampleStore [remoteImage]"
  have init: "initial ?s0"
    by (simp add: initial_def exampleStore_def)
  have flag: "isRefreshingElements (run neverThrows [Refresh 17] ?s0)"
    by code_simp
  have dropped: "step neverThrows (Refresh 18) (run neverThrows [Refresh 17] ?s0)
      = run neverThrows [Refresh 17] ?s0"
    using one_pass_at_a_time [OF init, of neverThrows "[Refresh 17]" 18] flag by blast
  have unfold: "run neverThrows [Refresh 17, Refresh 18] ?s0
      = step neverThrows (Refresh 18) (run neverThrows [Refresh 17] ?s0)"
    by (simp add: run_def)
  have same: "run neverThrows [Refresh 17, Refresh 18] ?s0 = run neverThrows [Refresh 17] ?s0"
    using dropped unfold by simp
  have one: "passesInFlight (run neverThrows [Refresh 17, Refresh 18] ?s0) = 1"
    using one_pass_at_a_time [OF init, of neverThrows "[Refresh 17]"] flag same by simp
  have cleared: "\<not> isRefreshingElements (run neverThrows [Refresh 17, Refresh 18, ImageLoaded 0] ?s0)"
    by code_simp
  from init flag same one cleared show ?thesis by blast
qed

subsection \<open>Errors in the loop\<close>

lemma processElements_append:
  "processElements throws now i (xs @ ys) acc =
     (case processElements throws now i xs acc of
        Normal a \<Rightarrow> processElements throws now (i + length xs) ys a
      | Throw a \<Rightarrow> Throw a)"
  by (induction xs arbitrary: i acc) (auto split: completion.splits)

text \<open>
  Claim C6, as amended. An error thrown while an element is materialized is caught by the
  one handler around the whole pass and logged. The loop ends at that element: whatever
  elements follow it in paint order, none of them is processed in this pass. The pass
  ends in the state reached at the throw, which holds what the elements before it have
  done, with the error logged, and the flag is released.
\<close>

theorem element_error_ends_the_pass:
  assumes canvas: "hasCanvas s" and idle: "\<not> isRefreshingElements s"
    and order: "sortedElements (editorElements s) = pre @ e # post"
    and started: "storeMethod throws ''updateCanvasFrameFill'' [] (beginPass s) = Normal s0"
    and before: "processElements throws now 0 pre (s0, []) = Normal acc"
    and fails: "processElement throws now (length pre) e acc = Throw (s1, imagePromises)"
  shows "(\<forall>rest. processElements throws now 0 (pre @ e # rest) (s0, []) = Throw (s1, imagePromises))
     \<and> refreshElementsUtil throws now s = (logCall ConsoleError s1)\<lparr>isRefreshingElements := False\<rparr>
     \<and> calls (refreshElementsUtil throws now s) = calls s1 @ [ConsoleError]
     \<and> \<not> isRefreshingElements (refreshElementsUtil throws now s)"
proof -
  have loop: "\<forall>rest. processElements throws now 0 (pre @ e # rest) (s0, []) = Throw (s1, imagePromises)"
    using before fails by (simp add: processElements_append)
  then have "processElements throws now 0 (pre @ e # post) (s0, []) = Throw (s1, imagePromises)"
    by blast
  then have "synchronousPart throws now s = Throw (s1, imagePromises)"
    using started order by (simp add: synchronousPart_def)
  then have res: "refreshElementsUtil throws now s
      = (logCall ConsoleError s1)\<lparr>isRefreshingElements := False\<rparr>"
    using canvas idle by (simp add: refreshElementsUtil_def catchFinally_def)
  from loop res show ?thesis by (simp add: logCall_def)
qed

text \<open>
  The image, the video without an effect, and the remote image, all in row 0: the image
  is added, the video throws, and no load is issued for the remote image.
\<close>

theorem element_error_ends_the_pass_witness:
  "calls (refreshElementsUtil neverThrows 1 (exampleStore [localImage, videoWithoutEffect, remoteImage]))
     = [CanvasOff ''object:modified'', CanvasOff ''object:added'', CanvasClear,
        CanvasOn ''object:modified'', StoreMethod ''updateCanvasFrameFill'' [],
        CanvasAdd ''i'', CanvasMoveTo ''i'' 0, ConsoleError]
   \<and> \<not> isRefreshingElements
         (refreshElementsUtil neverThrows 1 (exampleStore [localImage, videoWithoutEffect, remoteImage]))"
proof -
  let ?st = "exampleStore [localImage, videoWithoutEffect, remoteImage]"
  let ?begun = "logCall (StoreMethod ''updateCanvasFrameFill'' []) (beginPass ?st)"
  let ?afterImage = "logCall (CanvasMoveTo ''i'' 0) (logCall (CanvasAdd ''i'') (realize localImage ?begun))"
  have canvas: "hasCanvas ?st" and idle: "\<not> isRefreshingElements ?st"
    by (simp_all add: exampleStore_def)
  have order: "sortedElements (editorElements ?st) = [localImage] @ videoWithoutEffect # [remoteImage]"
    by code_simp
  have started: "storeMethod neverThrows ''updateCanvasFrameFill'' [] (beginPass ?st) = Normal ?begun"
    by (simp add: storeMethod_def neverThrows_def)
  have before: "processElements neverThrows 1 0 [localImage] (?begun, []) = Normal (?afterImage, [])"
    by (simp add: processElement_def materializeImage_def localImage_def exampleElement_def
        exampleProperties_def exampleStore_def beginPass_def logCall_def realize_def afterSwitch_def)
  have fails: "processElement neverThrows 1 (length [localImage]) videoWithoutEffect (?afterImage, [])
      = Throw (?afterImage, [])"
    by (simp add: processElement_def materializeVideo_def videoWithoutEffect_def exampleElement_def
        exampleProperties_def exampleStore_def beginPass_def logCall_def realize_def)
  have log: "calls ?afterImage = [CanvasOff ''object:modified'', CanvasOff ''object:added'', CanvasClear,
        CanvasOn ''object:modified'', StoreMethod ''updateCanvasFrameFill'' [],
        CanvasAdd ''i'', CanvasMoveTo ''i'' 0]"
    by (simp add: exampleStore_def beginPass_def logCall_def realize_def localImage_def
        exampleElement_def)
  note inst = element_error_ends_the_pass [OF canvas idle order started before fails]
  have res: "calls (refreshElementsUtil neverThrows 1 ?st) = calls ?afterImage @ [ConsoleError]"
    using inst by blast
  have cleared: "\<not> isRefreshingElements (refreshElementsUtil neverThrows 1 ?st)"
    using inst by blast
  show ?thesis
    unfolding res log using cleared by simp
qed

text \<open>
  The claim as stated isolates the failure: with the video without an effect first, the
  image after it is not added to the scene, though the image on its own is.
\<close>

theorem element_error_not_isolated_counterexample:
  "calls (refreshElementsUtil neverThrows 1 (exampleStore [videoWithoutEffect, localImage]))
     = [CanvasOff ''object:modified'', CanvasOff ''object:added'', CanvasClear,
        CanvasOn ''object:modified'', StoreMethod ''updateCanvasFrameFill'' [], ConsoleError]
   \<and> CanvasAdd ''i''
       \<notin> set (calls (refreshElementsUtil neverThrows 1 (exampleStore [videoWithoutEffect, localImage])))
   \<and> CanvasAdd ''i'' \<in> set (calls (refreshElementsUtil neverThrows 1 (exampleStore [localImage])))"
  by code_simp

subsection \<open>Remote images\<close>

lemma onlyLogs_refl [simp]: "onlyLogs s s"
  by (simp add: onlyLogs_def)

lemma onlyLogs_trans: "onlyLogs s t \<Longrightarrow> onlyLogs t u \<Longrightarrow> onlyLogs s u"
  by (auto simp: onlyLogs_def)

lemma onlyLogs_logCall [simp]: "onlyLogs s (logCall c s)"
  by (simp add: onlyLogs_def logCall_def)

lemma onlyLogs_storeMethod: "onlyLogs s (reached (storeMethod throws name arg s))"
  by (simp add: storeMethod_def)

lemma onlyLogs_andThen:
  assumes "onlyLogs s (reached c)" "\<And>a. onlyLogs a (reached (f a))"
  shows "onlyLogs s (reached (andThen c f))"
  using assms by (cases c) (auto simp: andThen_def intro: onlyLogs_trans)

lemma onlyLogs_updateWordZIndexes: "onlyLogs s (reached (updateWordZIndexes throws els s))"
proof (induction els arbitrary: s)
  case Nil
  then show ?case by simp
next
  case (Cons e els)
  show ?case
  proof (cases "type e = ''text'' \<and> wordObjects (properties e) \<noteq> None")
    case True
    then show ?thesis
      using onlyLogs_andThen [OF onlyLogs_storeMethod, of "updateWordZIndexes throws els", OF Cons]
      by simp
  next
    case False
    then show ?thesis using Cons [of s] by auto
  qed
qed

lemma onlyLogs_finalUpdates: "onlyLogs s (reached (finalUpdates throws s))"
proof -
  define s1 where "s1 = (case selectedElement s of
                  None \<Rightarrow> s
                | Some selected \<Rightarrow>
                    (case fabricObject s selected of
                       None \<Rightarrow> s
                     | Some obj \<Rightarrow> logCall (SetActiveObject obj) s))"
  define f3 where "f3 = (\<lambda>s4. Normal (logCall RequestRenderAll s4))"
  define f2 where "f2 = (\<lambda>s3. andThen (updateWordZIndexes throws (editorElements s3) s3) f3)"
  define f1 where "f1 = (\<lambda>s2. andThen (storeMethod throws ''updateTimeTo'' [] s2) f2)"
  have c1: "onlyLogs s s1"
    by (simp add: s1_def split: option.splits)
  have fin: "finalUpdates throws s = andThen (storeMethod throws ''refreshAnimations'' [] s1) f1"
    by (simp add: finalUpdates_def s1_def f1_def f2_def f3_def Let_def)
  have c3: "\<And>a. onlyLogs a (reached (f3 a))"
    by (simp add: f3_def)
  have c2: "\<And>a. onlyLogs a (reached (f2 a))"
    unfolding f2_def by (rule onlyLogs_andThen [OF onlyLogs_updateWordZIndexes c3])
  have c1': "\<And>a. onlyLogs a (reached (f1 a))"
    unfolding f1_def by (rule onlyLogs_andThen [OF onlyLogs_storeMethod c2])
  have "onlyLogs s1 (reached (finalUpdates throws s))"
    unfolding fin by (rule onlyLogs_andThen [OF onlyLogs_storeMethod c1'])
  with c1 show ?thesis by (rule onlyLogs_trans)
qed

lemma onlyLogs_catchFinally: "onlyLogs (reached c) (catchFinally c)"
  by (cases c) (simp_all add: catchFinally_def onlyLogs_def logCall_def)

lemma onlyLogs_resume: "onlyLogs s (catchFinally (finalUpdates throws s))"
  using onlyLogs_finalUpdates onlyLogs_catchFinally by (rule onlyLogs_trans)

lemma onlyLogs_resumes:
  "onlyLogs s (((\<lambda>s'. catchFinally (finalUpdates throws s')) ^^ n) s)"
proof (induction n)
  case 0
  then show ?case by simp
next
  case (Suc n)
  then show ?case using onlyLogs_resume by (auto intro: onlyLogs_trans)
qed

lemma imageLoaded_mutates:
  assumes "find (\<lambda>p. loadId p = l) (pendingLoads t) = Some ld"
  shows "prefix (calls t @ [CanvasAdd (loadElement ld), CanvasMoveTo (loadElement ld) (loadIndex ld)])
           (calls (imageLoaded throws l t))
     \<and> fabricObject (imageLoaded throws l t) (loadElement ld) = Some (loadElement ld)"
proof -
  define s2 where "s2 = logCall (CanvasMoveTo (loadElement ld) (loadIndex ld))
      (logCall (CanvasAdd (loadElement ld))
         (t\<lparr>fabricObject := (fabricObject t)(loadElement ld \<mapsto> loadElement ld),
            pendingLoads := filter (\<lambda>p. loadId p \<noteq> l) (pendingLoads t)\<rparr>))"
  define waiting where "waiting = map (filter (\<lambda>k. k \<noteq> l)) (suspended s2)"
  define s3 where "s3 = s2\<lparr>suspended := filter (\<lambda>w. w \<noteq> []) waiting\<rparr>"
  have res: "imageLoaded throws l t =
      ((\<lambda>s'. catchFinally (finalUpdates throws s')) ^^ length (filter (\<lambda>w. w = []) waiting)) s3"
    using assms by (simp add: imageLoaded_def Let_def s2_def waiting_def s3_def)
  have s3: "calls s3 = calls t @ [CanvasAdd (loadElement ld), CanvasMoveTo (loadElement ld) (loadIndex ld)]"
    "fabricObject s3 (loadElement ld) = Some (loadElement ld)"
    by (simp_all add: s3_def s2_def logCall_def)
  have "onlyLogs s3 (imageLoaded throws l t)"
    unfolding res by (rule onlyLogs_resumes)
  with s3 show ?thesis by (simp add: onlyLogs_def)
qed

text \<open>
  Claim C8, as amended. For a remote image that is not hidden, has no realized node and
  has a non-empty source, the pass issues a load of the source with the query parameter
  \<open>_cb=<now>\<close> appended (after \<open>&\<close> when the source has a \<open>?\<close>, after \<open>?\<close> otherwise) and does
  nothing else for the element: the node is added to the scene and moved to the paint
  index captured at dispatch only in the completion callback. The callback makes no
  check: in whatever state it runs, it assigns the node and adds and moves it.
\<close>

theorem remote_image_added_by_callback_unconditionally:
  assumes kind: "type e = ''imageUrl''" and shown: "\<not> hideInCanvas (properties e)"
    and unrealized: "fabricObject s (ident e) = None"
    and source: "src (properties e) = Some u" "u \<noteq> []"
  shows "processElement throws now index e (s, imagePromises) =
       Normal (s\<lparr>calls := calls s @
                    [ImageFromURL (u @ (if CHR ''?'' \<in> set u then ''&'' else ''?'') @ ''_cb='' @ decimal now)],
                 pendingLoads := pendingLoads s @
                    [\<lparr>loadId = nextLoad s, loadElement = ident e, loadIndex = index\<rparr>],
                 nextLoad := Suc (nextLoad s)\<rparr>,
               imagePromises @ [nextLoad s])
     \<and> (\<forall>t l ld. find (\<lambda>p. loadId p = l) (pendingLoads t) = Some ld \<longrightarrow>
           prefix (calls t @ [CanvasAdd (loadElement ld), CanvasMoveTo (loadElement ld) (loadIndex ld)])
             (calls (imageLoaded throws l t))
           \<and> fabricObject (imageLoaded throws l t) (loadElement ld) = Some (loadElement ld))"
proof -
  have issue: "processElement throws now index e (s, imagePromises) =
       Normal (s\<lparr>calls := calls s @
                    [ImageFromURL (u @ (if CHR ''?'' \<in> set u then ''&'' else ''?'') @ ''_cb='' @ decimal now)],
                 pendingLoads := pendingLoads s @
                    [\<lparr>loadId = nextLoad s, loadElement = ident e, loadIndex = index\<rparr>],
                 nextLoad := Suc (nextLoad s)\<rparr>,
               imagePromises @ [nextLoad s])"
    using assms
    by (simp add: processElement_def materializeImage_def afterSwitch_def cacheBustUrl_def)
  from issue imageLoaded_mutates show ?thesis by blast
qed

theorem remote_image_added_by_callback_unconditionally_witness:
  "calls (fst (reached (processElement neverThrows 17 0 remoteImage (exampleStore [remoteImage], []))))
     = [ImageFromURL ''https://example.org/u.png?_cb=17'']
   \<and> prefix [ImageFromURL ''https://example.org/u.png?_cb=17'', CanvasAdd ''u'', CanvasMoveTo ''u'' 0]
        (calls (imageLoaded neverThrows 0
           (fst (reached (processElement neverThrows 17 0 remoteImage (exampleStore [remoteImage], []))))))"
proof -
  let ?st = "exampleStore [remoteImage]"
  let ?u = "''https://example.org/u.png''"
  let ?t = "?st\<lparr>calls := calls ?st @
                    [ImageFromURL (?u @ (if CHR ''?'' \<in> set ?u then ''&'' else ''?'') @ ''_cb='' @ decimal 17)],
                 pendingLoads := pendingLoads ?st @
                    [\<lparr>loadId = nextLoad ?st, loadElement = ident remoteImage, loadIndex = 0\<rparr>],
                 nextLoad := Suc (nextLoad ?st)\<rparr>"
  have kind: "type remoteImage = ''imageUrl''" and shown: "\<not> hideInCanvas (properties remoteImage)"
    and source: "src (properties remoteImage) = Some ?u" "?u \<noteq> []"
    by (simp_all add: remoteImage_def exampleElement_def exampleProperties_def)
  have unrealized: "fabricObject ?st (ident remoteImage) = None"
    by (simp add: exampleStore_def)
  note inst = remote_image_added_by_callback_unconditionally
    [OF kind shown unrealized source, of neverThrows 17 0 "[]"]
  have issued: "processElement neverThrows 17 0 remoteImage (?st, []) = Normal (?t, [] @ [nextLoad ?st])"
    using inst by blast
  have url: "calls ?t = [ImageFromURL ''https://example.org/u.png?_cb=17'']"
    by (simp add: exampleStore_def decimal.simps)
  have pending: "find (\<lambda>p. loadId p = 0) (pendingLoads ?t)
      = Some \<lparr>loadId = 0, loadElement = ''u'', loadIndex = 0\<rparr>"
    by (simp add: exampleStore_def remoteImage_def exampleElement_def)
  have "prefix (calls ?t @ [CanvasAdd ''u'', CanvasMoveTo ''u'' 0]) (calls (imageLoaded neverThrows 0 ?t))"
    using inst pending by fastforce
  with issued url show ?thesis by simp
qed


text \<open>
  The claim as stated has the callback check that its element is still live. The remote
  image is removed from the element list while its load is pending: the callback still
  adds its node. With a video without an effect after it, the first pass ends with an
  error while the load is pending; a second pass rebuilds the scene for the emptied
  list, and the callback of the first pass then adds its node to that scene. A remote
  image without a source starts no load.
\<close>

theorem stale_image_callback_counterexample:
  "calls (run neverThrows [Refresh 17, SetEditorElements [], ImageLoaded 0] (exampleStore [remoteImage]))
     = [CanvasOff ''object:modified'', CanvasOff ''object:added'', CanvasClear,
        CanvasOn ''object:modified'', StoreMethod ''updateCanvasFrameFill'' [],
        ImageFromURL ''https://example.org/u.png?_cb=17'', CanvasAdd ''u'',
        CanvasMoveTo ''u'' 0, StoreMethod ''refreshAnimations'' [],
        StoreMethod ''updateTimeTo'' [], RequestRenderAll]
   \<and> editorElements
        (run neverThrows [Refresh 17, SetEditorElements [], ImageLoaded 0] (exampleStore [remoteImage]))
     = []
   \<and> calls (run neverThrows [Refresh 17, SetEditorElements [], Refresh 18, ImageLoaded 0]
        (exampleStore [remoteImage, videoWithoutEffect]))
     = [CanvasOff ''object:modified'', CanvasOff ''object:added'', CanvasClear,
        CanvasOn ''object:modified'', StoreMethod ''updateCanvasFrameFill'' [],
        ImageFromURL ''https://example.org/u.png?_cb=17'', ConsoleError,
        CanvasOff ''object:modified'', CanvasOff ''object:added'', CanvasClear,
        CanvasOn ''object:modified'', StoreMethod ''updateCanvasFrameFill'' [],
        StoreMethod ''refreshAnimations'' [], StoreMethod ''updateTimeTo'' [],
        RequestRenderAll, CanvasAdd ''u'', CanvasMoveTo ''u'' 0]
   \<and> calls (refreshElementsUtil neverThrows 17 (exampleStore [placeholderImage]))
     = [CanvasOff ''object:modified'', CanvasOff ''object:added'', CanvasClear,
        CanvasOn ''object:modified'', StoreMethod ''updateCanvasFrameFill'' [],
        StoreMethod ''refreshAnimations'' [], StoreMethod ''updateTimeTo'' [],
        RequestRenderAll]"
  by code_simp

end
